theory Spec2Isabelle
  imports Complex_Main "HOL-Library.Sublist"
begin

section \<open>JavaScript values\<close>

text \<open>
  The scripts work on documents read with \<^verbatim>\<open>JSON.parse\<close>. A value is one of the JSON
  shapes; \<open>Undefined\<close> is what a property access yields when the property is absent.
  Objects keep their properties as an association list in insertion order.
\<close>

datatype jsval =
    Undefined
  | Null
  | Bool bool
  | Num int
  | Str string
  | Arr "jsval list"
  | Obj "(string \<times> jsval) list"

text \<open>\<^verbatim>\<open>!v\<close> is false exactly on the truthy values.\<close>

fun truthy :: "jsval \<Rightarrow> bool" where
  "truthy Undefined = False"
| "truthy Null = False"
| "truthy (Bool b) = b"
| "truthy (Num n) = (n \<noteq> 0)"
| "truthy (Str s) = (s \<noteq> [])"
| "truthy (Arr _) = True"
| "truthy (Obj _) = True"

text \<open>\<^verbatim>\<open>typeof v === 'object'\<close> (which also holds of \<^verbatim>\<open>null\<close> and of arrays).\<close>

fun typeof_object :: "jsval \<Rightarrow> bool" where
  "typeof_object Null = True"
| "typeof_object (Arr _) = True"
| "typeof_object (Obj _) = True"
| "typeof_object _ = False"

text \<open>
  Property access \<^verbatim>\<open>v.k\<close> for the keys the scripts use (\<^verbatim>\<open>sys\<close>, \<^verbatim>\<open>type\<close>,
  \<^verbatim>\<open>linkType\<close>, \<^verbatim>\<open>id\<close>): only an object can own them; on arrays, strings, numbers and
  booleans the access yields \<^verbatim>\<open>undefined\<close>.
\<close>

fun getprop :: "jsval \<Rightarrow> string \<Rightarrow> jsval" where
  "getprop (Obj kvs) k = (case map_of kvs k of Some v \<Rightarrow> v | None \<Rightarrow> Undefined)"
| "getprop _ k = Undefined"

fun traverseFields :: "jsval \<Rightarrow> jsval list" where
  "traverseFields (Arr xs) = concat (map traverseFields xs)"
| "traverseFields (Obj kvs) =
     (if truthy (getprop (Obj kvs) ''sys'')
         \<and> getprop (getprop (Obj kvs) ''sys'') ''type'' = Str ''Link''
         \<and> getprop (getprop (Obj kvs) ''sys'') ''linkType'' = Str ''Asset''
      then [getprop (getprop (Obj kvs) ''sys'') ''id''] else [])
     @ concat (map (\<lambda>kv. traverseFields (snd kv)) kvs)"
| "traverseFields _ = []"

section \<open>The content graph\<close>

text \<open>
  An entry and an asset carry a \<^verbatim>\<open>sys\<close> block (id, version, optional published version,
  and for entries the content-type id) and a \<^verbatim>\<open>fields\<close> block: an object that maps a field
  id to an object that maps a locale code to the field value. The field values stay
  untyped, as the scripts walk them dynamically. Of a content type, a tag, a locale and an
  editor interface the records keep what the scripts read.
\<close>

type_synonym fieldsBlock = "(string \<times> (string \<times> jsval) list) list"

record entry =
  entry_id :: string
  entry_version :: int
  entry_publishedVersion :: "int option"
  entry_contentType :: string
  entry_fields :: fieldsBlock

text \<open>The fields block as the value it is in the document.\<close>

definition fieldsValue :: "fieldsBlock \<Rightarrow> jsval" where
  "fieldsValue fs = Obj (map (\<lambda>kf. (fst kf, Obj (snd kf))) fs)"

record asset =
  asset_id :: string
  asset_version :: int
  asset_publishedVersion :: "int option"
  asset_file :: jsval

record ctField =
  field_id :: string
  field_required :: bool

record contentType =
  ct_id :: string
  ct_name :: string
  ct_fields :: "ctField list"

record tag =
  tag_id :: string
  tag_name :: string

record spaceLocale =
  locale_code :: string

record editorInterface =
  ei_contentTypeId :: string
  ei_controls :: jsval

record export =
  contentTypes :: "contentType list"
  entries :: "entry list"
  assets :: "asset list"
  tags :: "tag list"
  locales :: "spaceLocale list"
  editorInterfaces :: "editorInterface list"
  webhooks :: "jsval list"

section \<open>The splitter (\<^verbatim>\<open>splitExport\<close>)\<close>

text \<open>
  \<^verbatim>\<open>getAssetReferencesFromEntry\<close>: the ids are collected in a \<^verbatim>\<open>Set\<close> and returned with
  \<^verbatim>\<open>Array.from\<close>, that is without repetition, in order of first insertion. An id is
  whatever value the link holds; only an id that is a string can later be found in the set
  of a batch's asset ids.
\<close>

definition getAssetReferencesFromEntry :: "entry \<Rightarrow> jsval list" where
  "getAssetReferencesFromEntry e =
     (if truthy (fieldsValue (entry_fields e))
      then rev (remdups (rev (traverseFields (fieldsValue (entry_fields e))))) else [])"

text \<open>
  \<^verbatim>\<open>entryToAssets\<close> is a \<^verbatim>\<open>Map\<close> keyed by entry id, filled by \<^verbatim>\<open>entries.forEach\<close>: a later
  entry with the same id overwrites the earlier one. (\<^verbatim>\<open>assetToEntries\<close> is built beside it
  and only its size is logged.)
\<close>

definition entryToAssets :: "entry list \<Rightarrow> (string \<rightharpoonup> jsval list)" where
  "entryToAssets es = fold (\<lambda>e m. m(entry_id e \<mapsto> getAssetReferencesFromEntry e)) es Map.empty"

text \<open>
  The chunking loop
  \<^verbatim>\<open>for (let i = 0; i < assets.length; i += batchSize) assetBatches.push(assets.slice(i, i + batchSize))\<close>.
  With \<open>batchSize = 0\<close> and at least one asset it never ends, so the loop is a partial function.
\<close>

definition slice :: "'a list \<Rightarrow> nat \<Rightarrow> nat \<Rightarrow> 'a list" where
  "slice xs i j = take (j - i) (drop i xs)"

partial_function (option) assetBatchesLoop ::
  "asset list \<Rightarrow> nat \<Rightarrow> nat \<Rightarrow> asset list list \<Rightarrow> asset list list option" where
  "assetBatchesLoop as batchSize i assetBatches =
     (if i < length as
      then assetBatchesLoop as batchSize (i + batchSize) (assetBatches @ [slice as i (i + batchSize)])
      else Some assetBatches)"

declare assetBatchesLoop.simps [code]

record batch =
  b_contentTypes :: "contentType list"
  b_tags :: "tag list"
  b_locales :: "spaceLocale list"
  b_editorInterfaces :: "editorInterface list"
  b_webhooks :: "jsval list"
  b_entries :: "entry list"
  b_assets :: "asset list"

text \<open>
  The filter of one asset batch: an entry is taken when its id is not yet in
  \<^verbatim>\<open>processedEntries\<close> and some id of \<^verbatim>\<open>entryToAssets.get(entry.sys.id) || []\<close> is in
  \<^verbatim>\<open>batchAssetIds\<close>, the set of the batch's asset ids (strings).
\<close>

definition batchEntryFilter ::
  "(string \<rightharpoonup> jsval list) \<Rightarrow> string list \<Rightarrow> string list \<Rightarrow> entry \<Rightarrow> bool" where
  "batchEntryFilter e2a processedEntries batchAssetIds e =
     (if entry_id e \<in> set processedEntries then False
      else (let entryAssets = (case e2a (entry_id e) of Some r \<Rightarrow> r | None \<Rightarrow> [])
            in list_ex (\<lambda>assetId. assetId \<in> set (map Str batchAssetIds)) entryAssets))"

text \<open>The loop over \<^verbatim>\<open>batchIndex\<close>; it returns the batches and the final \<^verbatim>\<open>processedEntries\<close>.\<close>

fun processBatches ::
  "export \<Rightarrow> (string \<rightharpoonup> jsval list) \<Rightarrow> nat \<Rightarrow> asset list list \<Rightarrow> string list
     \<Rightarrow> batch list \<times> string list" where
  "processBatches ex e2a batchIndex [] processedEntries = ([], processedEntries)"
| "processBatches ex e2a batchIndex (batchAssets # rest) processedEntries =
     (let batchAssetIds = map asset_id batchAssets;
          batchEntries = filter (batchEntryFilter e2a processedEntries batchAssetIds) (entries ex);
          processedEntries' = processedEntries @ map entry_id batchEntries;
          batchData = \<lparr> b_contentTypes = (if batchIndex = 0 then contentTypes ex else []),
                        b_tags = (if batchIndex = 0 then tags ex else []),
                        b_locales = (if batchIndex = 0 then locales ex else []),
                        b_editorInterfaces = (if batchIndex = 0 then editorInterfaces ex else []),
                        b_webhooks = (if batchIndex = 0 then webhooks ex else []),
                        b_entries = batchEntries,
                        b_assets = batchAssets \<rparr>;
          (bs, p) = processBatches ex e2a (batchIndex + 1) rest processedEntries'
      in (batchData # bs, p))"

definition orphanBatch :: "entry list \<Rightarrow> batch" where
  "orphanBatch orphanedEntries =
     \<lparr> b_contentTypes = [], b_tags = [], b_locales = [], b_editorInterfaces = [],
       b_webhooks = [], b_entries = orphanedEntries, b_assets = [] \<rparr>"

text \<open>
  The batch documents written by \<^verbatim>\<open>splitExport\<close>, in the order \<^verbatim>\<open>batch-01\<close>,
  \<^verbatim>\<open>batch-02\<close>, ...: one per asset chunk, then the batch of the orphaned entries when
  there is at least one. \<open>None\<close> when the chunking loop does not end.
\<close>

definition splitExport :: "nat \<Rightarrow> export \<Rightarrow> batch list option" where
  "splitExport batchSize ex =
     (case assetBatchesLoop (assets ex) batchSize 0 [] of
        None \<Rightarrow> None
      | Some assetBatches \<Rightarrow>
          (let (bs, processedEntries) =
                 processBatches ex (entryToAssets (entries ex)) 0 assetBatches [];
               orphanedEntries = filter (\<lambda>e. entry_id e \<notin> set processedEntries) (entries ex)
           in Some (bs @ (if length orphanedEntries > 0 then [orphanBatch orphanedEntries] else []))))"

subsection \<open>Notions used to state the splitter's properties\<close>

text \<open>The entry ids of a batch document.\<close>

definition entryIds :: "batch \<Rightarrow> string set" where
  "entryIds b = entry_id ` set (b_entries b)"

text \<open>
  An entry references a chunk of assets when one of the asset links found in its fields
  names an asset of the chunk.
\<close>

definition references :: "entry \<Rightarrow> asset list \<Rightarrow> bool" where
  "references e batchAssets =
     (\<exists>a \<in> set batchAssets. Str (asset_id a) \<in> set (getAssetReferencesFromEntry e))"

text \<open>The same test as the splitter makes it, through the \<^verbatim>\<open>entryToAssets\<close> map.\<close>

definition hitsChunk :: "(string \<rightharpoonup> jsval list) \<Rightarrow> asset list \<Rightarrow> entry \<Rightarrow> bool" where
  "hitsChunk e2a batchAssets e =
     (\<exists>assetId \<in> set (case e2a (entry_id e) of Some r \<Rightarrow> r | None \<Rightarrow> []).
        assetId \<in> Str ` asset_id ` set batchAssets)"

text \<open>The index of the first chunk an entry hits, or the number of chunks when it hits none.\<close>

definition owner :: "(string \<rightharpoonup> jsval list) \<Rightarrow> asset list list \<Rightarrow> entry \<Rightarrow> nat" where
  "owner e2a chunks e = length (takeWhile (\<lambda>c. \<not> hitsChunk e2a c e) chunks)"

subsection \<open>A small export\<close>

definition assetLink :: "string \<Rightarrow> jsval" where
  "assetLink i = Obj [(''sys'', Obj [(''type'', Str ''Link''), (''linkType'', Str ''Asset''), (''id'', Str i)])]"

definition entryLink :: "string \<Rightarrow> jsval" where
  "entryLink i = Obj [(''sys'', Obj [(''type'', Str ''Link''), (''linkType'', Str ''Entry''), (''id'', Str i)])]"

definition exampleEntry :: "string \<Rightarrow> fieldsBlock \<Rightarrow> entry" where
  "exampleEntry i f = \<lparr> entry_id = i, entry_version = 2, entry_publishedVersion = Some 1,
     entry_contentType = ''page'', entry_fields = f \<rparr>"

definition exampleAsset :: "string \<Rightarrow> asset" where
  "exampleAsset i = \<lparr> asset_id = i, asset_version = 2, asset_publishedVersion = Some 1,
     asset_file = Obj [(''en-US'', Obj [(''url'', Str ''//images.ctfassets.net/s/a/h/f.png'')])] \<rparr>"

definition pageType :: contentType where
  "pageType = \<lparr> ct_id = ''page'', ct_name = ''Page'',
     ct_fields = [\<lparr> field_id = ''title'', field_required = True \<rparr>] \<rparr>"

text \<open>
  Three assets and three entries: \<open>e1\<close> links asset \<open>a3\<close>, \<open>e2\<close> links \<open>a1\<close> and \<open>a3\<close>
  from a list, \<open>e3\<close> links no asset.
\<close>

definition exampleExport :: export where
  "exampleExport = \<lparr>
     contentTypes = [pageType],
     entries =
       [exampleEntry ''e1'' [(''image'', [(''en-US'', assetLink ''a3'')])],
        exampleEntry ''e2'' [(''gallery'', [(''en-US'', Arr [assetLink ''a1'', assetLink ''a3''])])],
        exampleEntry ''e3'' [(''title'', [(''en-US'', Str ''Home'')])]],
     assets = [exampleAsset ''a1'', exampleAsset ''a2'', exampleAsset ''a3''],
     tags = [], locales = [\<lparr> locale_code = ''en-US'' \<rparr>],
     editorInterfaces = [], webhooks = [] \<rparr>"

text \<open>An export without assets, and one without content types.\<close>

definition noAssetsExport :: export where
  "noAssetsExport = \<lparr>
     contentTypes = [pageType],
     entries = [exampleEntry ''e1'' [(''title'', [(''en-US'', Str ''Home'')])]],
     assets = [],
     tags = [], locales = [\<lparr> locale_code = ''en-US'' \<rparr>],
     editorInterfaces = [], webhooks = [] \<rparr>"

definition noTypesExport :: export where
  "noTypesExport = \<lparr>
     contentTypes = [],
     entries = [exampleEntry ''e1'' [(''title'', [(''en-US'', Str ''Home'')])]],
     assets = [exampleAsset ''a1''],
     tags = [], locales = [],
     editorInterfaces = [], webhooks = [] \<rparr>"

section \<open>Batch numbers and the persisted state\<close>

text \<open>
  \<^verbatim>\<open>String(i).padStart(2, '0')\<close>: the decimal digits of the batch number, padded on the left
  with zeros to two characters.
\<close>

definition digitChar :: "nat \<Rightarrow> char" where
  "digitChar d = char_of (48 + d)"

fun natToString :: "nat \<Rightarrow> string" where
  "natToString n = (if n < 10 then [digitChar n] else natToString (n div 10) @ [digitChar (n mod 10)])"

declare natToString.simps [simp del]

definition padStart2 :: "string \<Rightarrow> string" where
  "padStart2 s = replicate (2 - length s) (CHR ''0'') @ s"

definition batchNumStr :: "nat \<Rightarrow> string" where
  "batchNumStr i = padStart2 (natToString i)"

text \<open>
  \<^verbatim>\<open>parseInt(s, 10)\<close>: leading white space is skipped (the ASCII white space characters are
  modelled), an optional sign is read, then the longest prefix of decimal digits. Without a
  digit the result is \<^verbatim>\<open>NaN\<close>, here \<open>None\<close>.
\<close>

definition isWhiteSpace :: "char \<Rightarrow> bool" where
  "isWhiteSpace c = (c \<in> set [CHR '' '', CHR 0x09, CHR 0x0A, CHR 0x0B, CHR 0x0C, CHR 0x0D])"

definition isDigit :: "char \<Rightarrow> bool" where
  "isDigit c = (48 \<le> (of_char c :: nat) \<and> (of_char c :: nat) \<le> 57)"

definition digitsValue :: "string \<Rightarrow> int" where
  "digitsValue ds = foldl (\<lambda>acc c. acc * 10 + (int (of_char c) - 48)) 0 ds"

definition parseInt :: "string \<Rightarrow> int option" where
  "parseInt s =
     (let t = dropWhile isWhiteSpace s;
          sign = (if t \<noteq> [] \<and> hd t = CHR ''-'' then - 1 else (1::int));
          u = (if t \<noteq> [] \<and> (hd t = CHR ''-'' \<or> hd t = CHR ''+'') then tl t else t);
          ds = takeWhile isDigit u
      in if ds = [] then None else Some (sign * digitsValue ds))"

text \<open>The state document \<^verbatim>\<open>import-state.json\<close> and the manifest written by the splitter.\<close>

record failedBatch =
  fb_batch :: string
  fb_error :: string
  fb_timestamp :: string

record importState =
  startedAt :: string
  completedBatches :: "string list"
  failedBatches :: "failedBatch list"
  currentBatch :: "string option"

record batchInfo =
  batchNumber :: nat
  batchId :: string
  info_assets :: nat
  info_entries :: nat
  hasContentModel :: bool

record manifest =
  totalBatches :: nat
  totalAssets :: nat
  totalEntries :: nat
  manifest_batchSize :: nat
  batches :: "batchInfo list"

section \<open>The resume script (\<^verbatim>\<open>resumeImport\<close>)\<close>

text \<open>
  What the script decides: it stops because the state file or the manifest is missing, it
  reports that all batches are completed, or it starts \<^verbatim>\<open>bin/import.js --start-from n\<close> with a
  strategy; \<open>n\<close> is a JavaScript number and may be \<^verbatim>\<open>NaN\<close> (\<open>None\<close>).

  The failed batch numbers are sorted with the comparator \<^verbatim>\<open>(a, b) => a - b\<close>. When one of
  them is \<^verbatim>\<open>NaN\<close> the comparator is not consistent and the order of the result depends on the
  implementation; the model gives \<open>Undetermined\<close> there.
\<close>

datatype strategy = Current | Failed | Next

datatype resumePlan =
    NoStateFile
  | NoManifest
  | AllCompleted
  | StartFrom strategy "int option"
  | Undetermined

text \<open>\<^verbatim>\<open>Math.max(0, ...xs)\<close>, which is \<^verbatim>\<open>NaN\<close> as soon as one argument is.\<close>

definition mathMax0 :: "int option list \<Rightarrow> int option" where
  "mathMax0 xs = (if None \<in> set xs then None else Some (fold max (map the xs) 0))"

definition resumeImport :: "importState option \<Rightarrow> manifest option \<Rightarrow> resumePlan" where
  "resumeImport stateFile manifestFile =
     (case stateFile of
        None \<Rightarrow> NoStateFile
      | Some state \<Rightarrow>
         (case manifestFile of
            None \<Rightarrow> NoManifest
          | Some manifest \<Rightarrow>
             (if currentBatch state \<noteq> None \<and> currentBatch state \<noteq> Some []
              then StartFrom Current (parseInt (the (currentBatch state)))
              else if length (failedBatches state) > 0
              then (let failedBatchNumbers = map (\<lambda>fb. parseInt (fb_batch fb)) (failedBatches state)
                    in if None \<in> set failedBatchNumbers then Undetermined
                       else StartFrom Failed (Some (hd (sort (map the failedBatchNumbers)))))
              else (let completedNumbers = map parseInt (completedBatches state);
                        maxCompleted = mathMax0 completedNumbers
                    in (case maxCompleted of
                          None \<Rightarrow> StartFrom Next None
                        | Some mx \<Rightarrow>
                            if mx \<ge> int (totalBatches manifest) then AllCompleted
                            else StartFrom Next (Some (mx + 1)))))))"

text \<open>The state of the specification's example and a manifest of five batches.\<close>

definition exampleState :: importState where
  "exampleState = \<lparr> startedAt = ''2024-01-01T00:00:00.000Z'',
     completedBatches = [''01'', ''02''], failedBatches = [], currentBatch = Some ''03'' \<rparr>"

definition exampleManifest :: manifest where
  "exampleManifest = \<lparr> totalBatches = 5, totalAssets = 0, totalEntries = 0,
     manifest_batchSize = 2, batches = [] \<rparr>"

text \<open>A state with two failed batches, and one with completed batches only.\<close>

definition failedState :: importState where
  "failedState = \<lparr> startedAt = ''2024-01-01T00:00:00.000Z'',
     completedBatches = [''01''],
     failedBatches = [\<lparr> fb_batch = ''03'', fb_error = ''timeout'', fb_timestamp = ''t1'' \<rparr>,
                      \<lparr> fb_batch = ''02'', fb_error = ''timeout'', fb_timestamp = ''t2'' \<rparr>],
     currentBatch = None \<rparr>"

definition completedState :: importState where
  "completedState = \<lparr> startedAt = ''2024-01-01T00:00:00.000Z'',
     completedBatches = [''01'', ''02''], failedBatches = [], currentBatch = None \<rparr>"

section \<open>The state file\<close>

text \<open>
  The state is written with \<^verbatim>\<open>fs.writeFileSync(STATE_FILE, JSON.stringify(state, null, 2))\<close>
  and read back with \<^verbatim>\<open>JSON.parse(fs.readFileSync(STATE_FILE))\<close>. A file is missing, holds the
  complete text of a document, or is torn: it holds only a proper prefix of a document's
  text (from the empty file on), which \<^verbatim>\<open>JSON.parse\<close> rejects.

  \<^verbatim>\<open>fs.writeFileSync\<close> opens the file itself with flag \<^verbatim>\<open>'w'\<close>, which truncates it, and then
  writes the text; there is no temporary file and no rename in the scripts. The contents a
  reader can find while the call runs are therefore, in order, the stages below.
\<close>

datatype 'd diskFile = Missing | Torn | Written 'd

definition writeFileSyncStages :: "'d \<Rightarrow> 'd diskFile list" where
  "writeFileSyncStages d = [Torn, Written d]"

text \<open>The file after a call that ran to its end.\<close>

definition writeFileSync :: "'d \<Rightarrow> 'd diskFile \<Rightarrow> 'd diskFile" where
  "writeFileSync d old = last (writeFileSyncStages d)"

text \<open>The file found when the process is stopped after \<open>k\<close> stages of the call.\<close>

definition interruptedWrite :: "'d \<Rightarrow> 'd diskFile \<Rightarrow> nat \<Rightarrow> 'd diskFile" where
  "interruptedWrite d old k = (old # writeFileSyncStages d) ! min k (length (writeFileSyncStages d))"

section \<open>The import driver (\<^verbatim>\<open>importAllBatches\<close>)\<close>

text \<open>
  A run of the driver: the state object in memory, the state file, what the run did so far
  (saves, batch import attempts, sleeps, skipped batches) and the two counters.
\<close>

datatype event =
    EvSave importState
  | EvImport string bool nat
  | EvSleep int
  | EvSkip string

record run =
  state :: importState
  stateFile :: "importState diskFile"
  trace :: "event list"
  successCount :: nat
  failureCount :: nat

text \<open>
  What the driver does not decide: whether \<^verbatim>\<open>importBatch(batchDir, batchNum, isFirstBatch)\<close>
  returns (\<open>None\<close>) or throws an error with a message, at the attempt numbered by the value
  of \<^verbatim>\<open>retries\<close>; and the time stamps \<^verbatim>\<open>new Date().toISOString()\<close>, taken here as a function
  of the number of events so far.
\<close>

record env =
  importBatchResult :: "string \<Rightarrow> bool \<Rightarrow> nat \<Rightarrow> string option"
  isoTime :: "nat \<Rightarrow> string"

record importOptions =
  maxRetries :: int
  retryDelay :: int
  delayBetweenBatches :: int
  uploadAssets :: bool
  skipContentPublishing :: bool
  skipAssetUpdates :: bool
  skipContentUpdates :: bool

datatype 'a result = Threw string 'a | Returned 'a

fun resultRun :: "'a result \<Rightarrow> 'a" where
  "resultRun (Threw msg r) = r"
| "resultRun (Returned r) = r"

definition loadState :: "env \<Rightarrow> importState diskFile \<Rightarrow> importState result" where
  "loadState e f =
     (case f of
        Written s \<Rightarrow> Returned s
      | Torn \<Rightarrow> Threw ''SyntaxError'' \<lparr> startedAt = [], completedBatches = [], failedBatches = [],
                                         currentBatch = None \<rparr>
      | Missing \<Rightarrow> Returned \<lparr> startedAt = isoTime e 0, completedBatches = [], failedBatches = [],
                               currentBatch = None \<rparr>)"

definition saveState :: "run \<Rightarrow> run" where
  "saveState r = r \<lparr> stateFile := writeFileSync (state r) (stateFile r),
                      trace := trace r @ [EvSave (state r)] \<rparr>"

definition sleep :: "int \<Rightarrow> run \<Rightarrow> run" where
  "sleep ms r = r \<lparr> trace := trace r @ [EvSleep ms] \<rparr>"

text \<open>
  The retry loop \<^verbatim>\<open>while (retries <= importOptions.maxRetries && !success)\<close> of batch \<open>i\<close>.
  After a success the loop is left (\<open>success\<close> is true); after a failure \<open>retries\<close> is
  incremented and the condition is tested again.
\<close>

function retryLoop ::
  "env \<Rightarrow> importOptions \<Rightarrow> manifest \<Rightarrow> nat \<Rightarrow> batchInfo \<Rightarrow> int \<Rightarrow> run \<Rightarrow> run" where
  "retryLoop e opts m i info retries r =
     (if retries \<le> maxRetries opts then
        (let batchNum = batchNumStr i;
             r1 = (if retries > 0 then sleep (retryDelay opts * retries) r else r);
             r2 = r1 \<lparr> trace := trace r1 @ [EvImport batchNum (hasContentModel info) (nat retries)] \<rparr>
         in case importBatchResult e batchNum (hasContentModel info) (nat retries) of
              None \<Rightarrow>
                (let r3 = r2 \<lparr> successCount := successCount r2 + 1,
                               state := (state r2) \<lparr> completedBatches := completedBatches (state r2) @ [batchNum],
                                                    currentBatch := None \<rparr> \<rparr>;
                     r4 = saveState r3
                 in if i < totalBatches m then sleep (delayBetweenBatches opts) r4 else r4)
            | Some message \<Rightarrow>
                (if retries + 1 > maxRetries opts
                 then (let r3 = r2 \<lparr> state := (state r2)
                                  \<lparr> failedBatches := failedBatches (state r2)
                                       @ [\<lparr> fb_batch = batchNum, fb_error = message,
                                            fb_timestamp = isoTime e (length (trace r2)) \<rparr>],
                                    currentBatch := None \<rparr> \<rparr>;
                           r4 = saveState r3
                       in retryLoop e opts m i info (retries + 1) (r4 \<lparr> failureCount := failureCount r4 + 1 \<rparr>))
                 else retryLoop e opts m i info (retries + 1) r2))
      else r)"
  by pat_completeness auto
termination
  by (relation "measure (\<lambda>(e, opts, m, i, info, retries, r). nat (maxRetries opts + 1 - retries))") auto

declare retryLoop.simps [simp del]

text \<open>
  The loop \<^verbatim>\<open>for (let i = startFromBatch; i <= manifest.totalBatches; i++)\<close>. When the
  manifest has no entry for the batch, \<^verbatim>\<open>batchInfo\<close> is \<^verbatim>\<open>undefined\<close> and reading
  \<^verbatim>\<open>batchInfo.assets\<close> throws; the error reaches the outer \<^verbatim>\<open>catch\<close>, which ends the process.
\<close>

function batchLoop ::
  "env \<Rightarrow> importOptions \<Rightarrow> manifest \<Rightarrow> nat \<Rightarrow> run \<Rightarrow> run result" where
  "batchLoop e opts m i r =
     (if i \<le> totalBatches m then
        (let batchNum = batchNumStr i
         in if batchNum \<in> set (completedBatches (state r))
            then batchLoop e opts m (i + 1) (r \<lparr> trace := trace r @ [EvSkip batchNum] \<rparr>)
            else (case find (\<lambda>b. batchId b = ''batch-'' @ batchNum) (batches m) of
                    None \<Rightarrow> Threw ''TypeError'' r
                  | Some batchInfo \<Rightarrow>
                      (let r1 = saveState (r \<lparr> state := (state r) \<lparr> currentBatch := Some batchNum \<rparr> \<rparr>)
                       in batchLoop e opts m (i + 1) (retryLoop e opts m i batchInfo 0 r1))))
      else Returned r)"
  by pat_completeness auto
termination
  by (relation "measure (\<lambda>(e, opts, m, i, r). totalBatches m + 1 - i)") auto

declare batchLoop.simps [simp del]

text \<open>
  \<^verbatim>\<open>importAllBatches(startFromBatch)\<close>: the exit code of the process and the run. A missing
  manifest, an unreadable state file and a missing manifest entry are fatal (exit code 1);
  so is a run in which some batch failed.
\<close>

definition importAllBatches ::
  "env \<Rightarrow> importOptions \<Rightarrow> manifest option \<Rightarrow> importState diskFile \<Rightarrow> nat \<Rightarrow> nat \<times> run" where
  "importAllBatches e opts manifestFile f startFromBatch =
     (let r0 = \<lparr> state = resultRun (loadState e f), stateFile = f, trace = [],
                  successCount = 0, failureCount = 0 \<rparr>
      in case manifestFile of
           None \<Rightarrow> (1, r0)
         | Some m \<Rightarrow>
            (case loadState e f of
               Threw msg s \<Rightarrow> (1, r0)
             | Returned s \<Rightarrow>
                (case batchLoop e opts m startFromBatch r0 of
                   Threw msg r \<Rightarrow> (1, r)
                 | Returned r \<Rightarrow> (if failureCount r > 0 then (1, r) else (0, r)))))"

text \<open>The number of import attempts of a batch among some events.\<close>

definition attemptsOf :: "string \<Rightarrow> event list \<Rightarrow> nat" where
  "attemptsOf b t = length (filter (\<lambda>ev. case ev of EvImport b' f k \<Rightarrow> b' = b | _ \<Rightarrow> False) t)"


definition exampleOptions :: importOptions where
  "exampleOptions = \<lparr> maxRetries = 3, retryDelay = 5000, delayBetweenBatches = 180000,
     uploadAssets = True, skipContentPublishing = False, skipAssetUpdates = False,
     skipContentUpdates = False \<rparr>"


definition freshState :: importState where
  "freshState = \<lparr> startedAt = ''2024-01-01T00:00:00.000Z'', completedBatches = [],
     failedBatches = [], currentBatch = None \<rparr>"


subsection \<open>Notions used to state the driver's properties\<close>





text \<open>
  An environment in which every import succeeds, a manifest of one batch, and a run that
  starts from a state in which batch 01 is recorded as failed.
\<close>

definition succeedingEnv :: env where
  "succeedingEnv = \<lparr> importBatchResult = (\<lambda>b f k. None),
                      isoTime = (\<lambda>n. ''2024-01-02T00:00:00.000Z'') \<rparr>"




section \<open>The rate limiter (\<^verbatim>\<open>RateLimiter\<close>)\<close>

text \<open>
  Time is \<^verbatim>\<open>Date.now()\<close>, in milliseconds. Token counts and rates are JavaScript numbers; they
  are modelled as exact rationals, that is without the rounding of double arithmetic.

  The world outside the limiter: the clock, the number of remote calls made so far and what
  happened (suspensions, admissions, remote calls). \<open>Admitted\<close> marks the point of
  \<^verbatim>\<open>throttle\<close> at which both tokens are taken and the wrapped function starts; \<open>Finished\<close> marks
  the point at which the wrapped function has returned or thrown.
\<close>

datatype apiCall =
    GetSpace
  | GetEnvironment
  | GetLocales
  | CreateLocale string
  | CreateTag string
  | CreateContentTypeWithId string
  | PublishContentType string
  | GetContentType string
  | GetEditorInterface string
  | UpdateEditorInterface string
  | GetAsset string
  | CreateAssetWithId string
  | ProcessForAllLocales string
  | PublishAsset string
  | GetEntry string
  | CreateEntryWithId string string
  | PublishEntry string

datatype ioEvent = Slept int | Admitted | Finished | Remote apiCall

record world =
  now :: int
  calls :: nat
  events :: "ioEvent list"

text \<open>An error thrown by a remote call; the limiter looks at \<^verbatim>\<open>status\<close> and \<^verbatim>\<open>statusCode\<close>.\<close>

record apiError =
  err_status :: "int option"
  err_statusCode :: "int option"
  err_message :: string

text \<open>
  What a remote call answers: an error or not, the time the call took, and the parts of
  the payload the import reads (the locale codes of \<^verbatim>\<open>getLocales\<close>, and whether every file
  of the asset returned by \<^verbatim>\<open>getAsset\<close> has a url).
\<close>

record response =
  failure :: "apiError option"
  took :: nat
  localeCodes :: "string list"
  filesReady :: bool

text \<open>
  The environment: the answer to the \<open>n\<close>-th remote call, and the time at which a timer
  set at time \<open>t\<close> for \<open>ms\<close> milliseconds fires.
\<close>

record netEnv =
  respond :: "nat \<Rightarrow> apiCall \<Rightarrow> response"
  wake :: "int \<Rightarrow> int \<Rightarrow> int"

definition remoteCall :: "netEnv \<Rightarrow> apiCall \<Rightarrow> world \<Rightarrow> world \<times> response" where
  "remoteCall env c w =
     (let resp = respond env (calls w) c
      in (w \<lparr> now := now w + int (took resp), calls := calls w + 1,
               events := events w @ [Remote c] \<rparr>, resp))"

definition setTimeout :: "netEnv \<Rightarrow> int \<Rightarrow> world \<Rightarrow> world" where
  "setTimeout env ms w = w \<lparr> now := wake env (now w) ms, events := events w @ [Slept ms] \<rparr>"

record bucket =
  capacity :: rat
  tokens :: rat
  refillRate :: rat
  lastRefill :: int

record stats =
  totalRequests :: nat
  totalWaitTime :: int
  throttledRequests :: nat
  startTime :: int

record rateLimiter =
  secondBucket :: bucket
  hourBucket :: bucket
  stats :: stats
  verbose :: bool

record limiterOptions =
  opt_requestsPerSecond :: "rat option"
  opt_requestsPerHour :: "rat option"
  opt_verbose :: "bool option"

text \<open>The constructor; \<^verbatim>\<open>options.requestsPerSecond || 10\<close> takes the default for a missing or zero value.\<close>

definition orDefault :: "rat option \<Rightarrow> rat \<Rightarrow> rat" where
  "orDefault v d = (case v of None \<Rightarrow> d | Some x \<Rightarrow> if x = 0 then d else x)"

definition newRateLimiter :: "limiterOptions \<Rightarrow> int \<Rightarrow> rateLimiter" where
  "newRateLimiter options t =
     (let requestsPerSecond = orDefault (opt_requestsPerSecond options) 10;
          requestsPerHour = orDefault (opt_requestsPerHour options) 36000
      in \<lparr> secondBucket = \<lparr> capacity = requestsPerSecond, tokens = requestsPerSecond,
                              refillRate = requestsPerSecond, lastRefill = t \<rparr>,
            hourBucket = \<lparr> capacity = requestsPerHour, tokens = requestsPerHour,
                            refillRate = requestsPerHour / 3600, lastRefill = t \<rparr>,
            stats = \<lparr> totalRequests = 0, totalWaitTime = 0, throttledRequests = 0, startTime = t \<rparr>,
            verbose = (opt_verbose options \<noteq> Some False) \<rparr>)"

definition refillBucket :: "int \<Rightarrow> bucket \<Rightarrow> bucket" where
  "refillBucket t b =
     (let timePassed = of_int (t - lastRefill b) / 1000;
          tokensToAdd = timePassed * refillRate b
      in b \<lparr> tokens := min (capacity b) (tokens b + tokensToAdd), lastRefill := t \<rparr>)"

text \<open>\<^verbatim>\<open>waitForToken(bucket, bucketName)\<close>; it changes the bucket and the statistics.\<close>

definition waitTimeFor :: "bucket \<Rightarrow> int" where
  "waitTimeFor b = \<lceil>((1 - tokens b) / refillRate b) * 1000\<rceil>"

definition waitForToken :: "netEnv \<Rightarrow> world \<times> bucket \<times> stats \<Rightarrow> world \<times> bucket \<times> stats" where
  "waitForToken env x =
     (case x of (w, b, st) \<Rightarrow>
        (let b1 = refillBucket (now w) b
         in if tokens b1 < 1
            then (let waitTime = waitTimeFor b1;
                      st' = st \<lparr> throttledRequests := throttledRequests st + 1,
                                 totalWaitTime := totalWaitTime st + waitTime \<rparr>;
                      w' = setTimeout env waitTime w;
                      b2 = refillBucket (now w') b1
                  in (w', b2 \<lparr> tokens := tokens b2 - 1 \<rparr>, st'))
            else (w, b1 \<lparr> tokens := tokens b1 - 1 \<rparr>, st)))"

text \<open>
  \<^verbatim>\<open>throttle(fn)\<close>. The wrapped function works on the world and returns a value or throws an
  error.
\<close>

definition is429 :: "apiError \<Rightarrow> bool" where
  "is429 err = (err_status err = Some 429 \<or> err_statusCode err = Some 429)"

definition throttle ::
  "netEnv \<Rightarrow> (world \<Rightarrow> world \<times> (apiError + 'a)) \<Rightarrow> world \<times> rateLimiter
     \<Rightarrow> (world \<times> rateLimiter) \<times> (apiError + 'a)" where
  "throttle env fn x =
     (case x of (w, rl) \<Rightarrow>
       (case waitForToken env (w, secondBucket rl, stats rl) of (w1, sb, st1) \<Rightarrow>
         (case waitForToken env (w1, hourBucket rl, st1) of (w2, hb, st2) \<Rightarrow>
           (let rl2 = rl \<lparr> secondBucket := sb, hourBucket := hb,
                           stats := st2 \<lparr> totalRequests := totalRequests st2 + 1 \<rparr> \<rparr>
            in (case fn (w2 \<lparr> events := events w2 @ [Admitted] \<rparr>) of (w3, res) \<Rightarrow>
                 (let w4 = w3 \<lparr> events := events w3 @ [Finished] \<rparr>
                  in case res of
                       Inr v \<Rightarrow> ((w4, rl2), Inr v)
                     | Inl err \<Rightarrow>
                         if is429 err
                         then (let w5 = setTimeout env 60000 w4;
                                   rl3 = rl2 \<lparr> secondBucket := (secondBucket rl2) \<lparr> tokens := 0 \<rparr>,
                                               hourBucket := (hourBucket rl2)
                                                 \<lparr> tokens := min (tokens (hourBucket rl2))
                                                                (capacity (hourBucket rl2) * (1 / 2)) \<rparr> \<rparr>
                               in ((w5, rl3), Inl err))
                         else ((w4, rl2), Inl err)))))))"



subsection \<open>Notions used to state the limiter's properties\<close>

text \<open>Timers never fire early, and time does not run backwards while one is pending.\<close>

definition honestTimers :: "netEnv \<Rightarrow> bool" where
  "honestTimers env = (\<forall>t ms. t \<le> wake env t ms \<and> t + ms \<le> wake env t ms)"



text \<open>Exact timers, remote calls that succeed at once, and a wrapped function making one call.\<close>

definition promptEnv :: netEnv where
  "promptEnv = \<lparr> respond = (\<lambda>n c. \<lparr> failure = None, took = 0, localeCodes = [], filesReady = True \<rparr>),
                  wake = (\<lambda>t ms. t + max ms 1) \<rparr>"

definition oneCall :: "netEnv \<Rightarrow> apiCall \<Rightarrow> world \<Rightarrow> world \<times> (apiError + unit)" where
  "oneCall env c w =
     (case remoteCall env c w of (w', resp) \<Rightarrow>
        (case failure resp of None \<Rightarrow> (w', Inr ()) | Some err \<Rightarrow> (w', Inl err)))"

definition startWorld :: world where
  "startWorld = \<lparr> now = 0, calls = 0, events = [] \<rparr>"


text \<open>The limiter of the documentation, and an environment whose every remote call is rejected with status 429.\<close>

definition defaultOptions :: limiterOptions where
  "defaultOptions = \<lparr> opt_requestsPerSecond = Some 10, opt_requestsPerHour = Some 36000,
                       opt_verbose = Some False \<rparr>"

definition tooManyRequests :: apiError where
  "tooManyRequests = \<lparr> err_status = Some 429, err_statusCode = None,
                         err_message = ''Rate limit exceeded'' \<rparr>"

definition rejectingEnv :: netEnv where
  "rejectingEnv = \<lparr> respond = (\<lambda>n c. \<lparr> failure = Some tooManyRequests, took = 5, localeCodes = [],
                                           filesReady = False \<rparr>),
                     wake = (\<lambda>t ms. t + max ms 1) \<rparr>"



section \<open>The import of one batch (\<^verbatim>\<open>importBatch\<close>)\<close>

text \<open>
  A remote call of the SDK either returns the response or throws the error of the response.
\<close>

type_synonym 'a io = "world \<Rightarrow> world \<times> (apiError + 'a)"

definition call :: "netEnv \<Rightarrow> apiCall \<Rightarrow> response io" where
  "call env c w =
     (case remoteCall env c w of (w', resp) \<Rightarrow>
        (case failure resp of Some err \<Rightarrow> (w', Inl err) | None \<Rightarrow> (w', Inr resp)))"

text \<open>Sequencing of two awaited steps, and \<^verbatim>\<open>try { ... } catch (error) { ... }\<close>.\<close>

definition andThen :: "'a io \<Rightarrow> ('a \<Rightarrow> 'b io) \<Rightarrow> 'b io" where
  "andThen m f w = (case m w of (w', Inl err) \<Rightarrow> (w', Inl err) | (w', Inr v) \<Rightarrow> f v w')"

definition tryCatch :: "'a io \<Rightarrow> (apiError \<Rightarrow> 'a io) \<Rightarrow> 'a io" where
  "tryCatch m h w = (case m w of (w', Inl err) \<Rightarrow> h err w' | (w', Inr v) \<Rightarrow> (w', Inr v))"

text \<open>
  \<^verbatim>\<open>rateLimiter ? await rateLimiter.throttle(f) : await f()\<close>, on the world and the limiter
  of the batch (\<open>None\<close> when rate limiting is disabled).
\<close>

definition admit ::
  "netEnv \<Rightarrow> 'a io \<Rightarrow> world \<times> rateLimiter option
     \<Rightarrow> (world \<times> rateLimiter option) \<times> (apiError + 'a)" where
  "admit env fn x =
     (case x of (w, limiter) \<Rightarrow>
        (case limiter of
           None \<Rightarrow> (case fn w of (w', res) \<Rightarrow> ((w', None), res))
         | Some rl \<Rightarrow> (case throttle env fn (w, rl) of ((w', rl'), res) \<Rightarrow> ((w', Some rl'), res))))"

text \<open>The functions wrapped for the limiter, in the order of the source.\<close>

definition localeCall :: "netEnv \<Rightarrow> string \<Rightarrow> unit io" where
  "localeCall env code =
     andThen (call env GetLocales)
       (\<lambda>locales. if code \<in> set (localeCodes locales) then (\<lambda>w. (w, Inr ()))
                   else andThen (call env (CreateLocale code)) (\<lambda>r w. (w, Inr ())))"

definition tagCall :: "netEnv \<Rightarrow> string \<Rightarrow> unit io" where
  "tagCall env i = andThen (call env (CreateTag i)) (\<lambda>r w. (w, Inr ()))"

definition contentTypeCall :: "netEnv \<Rightarrow> importOptions \<Rightarrow> string \<Rightarrow> unit io" where
  "contentTypeCall env opts i =
     andThen (call env (CreateContentTypeWithId i))
       (\<lambda>ct. if \<not> skipContentPublishing opts
               then andThen (call env (PublishContentType i)) (\<lambda>r w. (w, Inr ()))
               else (\<lambda>w. (w, Inr ())))"

definition editorInterfaceCall :: "netEnv \<Rightarrow> string \<Rightarrow> unit io" where
  "editorInterfaceCall env i =
     andThen (call env (GetContentType i))
       (\<lambda>contentType. andThen (call env (GetEditorInterface i))
          (\<lambda>ei. andThen (call env (UpdateEditorInterface i)) (\<lambda>r w. (w, Inr ()))))"

definition createAssetCall :: "netEnv \<Rightarrow> importOptions \<Rightarrow> string \<Rightarrow> unit io" where
  "createAssetCall env opts i =
     andThen (if skipAssetUpdates opts
              then tryCatch (call env (GetAsset i)) (\<lambda>error. call env (CreateAssetWithId i))
              else call env (CreateAssetWithId i))
       (\<lambda>r w. (w, Inr ()))"

definition processCall :: "netEnv \<Rightarrow> string \<Rightarrow> unit io" where
  "processCall env i = andThen (call env (ProcessForAllLocales i)) (\<lambda>r w. (w, Inr ()))"

definition getAssetCall :: "netEnv \<Rightarrow> string \<Rightarrow> bool io" where
  "getAssetCall env i = andThen (call env (GetAsset i)) (\<lambda>checkedAsset w. (w, Inr (filesReady checkedAsset)))"

definition publishAssetCall :: "netEnv \<Rightarrow> string \<Rightarrow> unit io" where
  "publishAssetCall env i =
     andThen (call env (GetAsset i))
       (\<lambda>assetToPublish. andThen (call env (PublishAsset i)) (\<lambda>r w. (w, Inr ())))"

definition createEntryCall :: "netEnv \<Rightarrow> importOptions \<Rightarrow> string \<Rightarrow> string \<Rightarrow> unit io" where
  "createEntryCall env opts contentTypeId i =
     andThen (if skipContentUpdates opts
              then tryCatch (call env (GetEntry i)) (\<lambda>error. call env (CreateEntryWithId contentTypeId i))
              else call env (CreateEntryWithId contentTypeId i))
       (\<lambda>r w. (w, Inr ()))"

definition publishEntryCall :: "netEnv \<Rightarrow> string \<Rightarrow> unit io" where
  "publishEntryCall env i = andThen (call env (PublishEntry i)) (\<lambda>r w. (w, Inr ()))"

text \<open>
  The loops over locales, tags and editor interfaces catch the error of an item and go on;
  the loop over content types throws it again.
\<close>

fun importLocales ::
  "netEnv \<Rightarrow> spaceLocale list \<Rightarrow> world \<times> rateLimiter option \<Rightarrow> world \<times> rateLimiter option" where
  "importLocales env [] x = x"
| "importLocales env (l # ls) x =
     (case admit env (localeCall env (locale_code l)) x of (x', res) \<Rightarrow> importLocales env ls x')"

fun importTags ::
  "netEnv \<Rightarrow> tag list \<Rightarrow> world \<times> rateLimiter option \<Rightarrow> world \<times> rateLimiter option" where
  "importTags env [] x = x"
| "importTags env (t # ts) x =
     (case admit env (tagCall env (tag_id t)) x of (x', res) \<Rightarrow> importTags env ts x')"

fun importContentTypes ::
  "netEnv \<Rightarrow> importOptions \<Rightarrow> contentType list \<Rightarrow> world \<times> rateLimiter option
     \<Rightarrow> (world \<times> rateLimiter option) \<times> (apiError + unit)" where
  "importContentTypes env opts [] x = (x, Inr ())"
| "importContentTypes env opts (ct # cts) x =
     (case admit env (contentTypeCall env opts (ct_id ct)) x of
        (x', Inl err) \<Rightarrow> (x', Inl err)
      | (x', Inr v) \<Rightarrow> importContentTypes env opts cts x')"

fun importEditorInterfaces ::
  "netEnv \<Rightarrow> editorInterface list \<Rightarrow> world \<times> rateLimiter option \<Rightarrow> world \<times> rateLimiter option" where
  "importEditorInterfaces env [] x = x"
| "importEditorInterfaces env (ei # eis) x =
     (case admit env (editorInterfaceCall env (ei_contentTypeId ei)) x of
        (x', res) \<Rightarrow> importEditorInterfaces env eis x')"

text \<open>
  The polling loop \<^verbatim>\<open>while (attempts < maxAttempts && !fullyProcessed)\<close> with
  \<^verbatim>\<open>maxAttempts = 30\<close>: two seconds of sleep, then an admitted \<^verbatim>\<open>getAsset\<close>.
\<close>

function pollAsset ::
  "netEnv \<Rightarrow> string \<Rightarrow> nat \<Rightarrow> bool \<Rightarrow> world \<times> rateLimiter option
     \<Rightarrow> (world \<times> rateLimiter option) \<times> (apiError + bool)" where
  "pollAsset env i attempts fullyProcessed x =
     (if attempts < 30 \<and> \<not> fullyProcessed
      then (case x of (w, limiter) \<Rightarrow>
              (case admit env (getAssetCall env i) (setTimeout env 2000 w, limiter) of
                 (x', Inl err) \<Rightarrow> (x', Inl err)
               | (x', Inr ready) \<Rightarrow> pollAsset env i (attempts + 1) ready x'))
      else (x, Inr fullyProcessed))"
  by pat_completeness auto
termination
  by (relation "measure (\<lambda>(env, i, attempts, fullyProcessed, x). 30 - attempts)") auto

declare pollAsset.simps [simp del]

text \<open>One asset and one entry; an error is caught, logged, and the loop goes on.\<close>

definition importAsset ::
  "netEnv \<Rightarrow> importOptions \<Rightarrow> asset \<Rightarrow> world \<times> rateLimiter option \<Rightarrow> world \<times> rateLimiter option" where
  "importAsset env opts a x =
     (case admit env (createAssetCall env opts (asset_id a)) x of
        (x1, Inl err) \<Rightarrow> x1
      | (x1, Inr newAsset) \<Rightarrow>
          if uploadAssets opts
          then (case admit env (processCall env (asset_id a)) x1 of
                  (x2, Inl err) \<Rightarrow> x2
                | (x2, Inr processedAsset) \<Rightarrow>
                    (case pollAsset env (asset_id a) 0 False x2 of
                       (x3, Inl err) \<Rightarrow> x3
                     | (x3, Inr fullyProcessed) \<Rightarrow>
                         if \<not> skipContentPublishing opts \<and> fullyProcessed
                         then fst (admit env (publishAssetCall env (asset_id a)) x3)
                         else x3))
          else x1)"

definition importEntry ::
  "netEnv \<Rightarrow> importOptions \<Rightarrow> entry \<Rightarrow> world \<times> rateLimiter option \<Rightarrow> world \<times> rateLimiter option" where
  "importEntry env opts e x =
     (case admit env (createEntryCall env opts (entry_contentType e) (entry_id e)) x of
        (x1, Inl err) \<Rightarrow> x1
      | (x1, Inr newEntry) \<Rightarrow>
          if \<not> skipContentPublishing opts
          then fst (admit env (publishEntryCall env (entry_id e)) x1)
          else x1)"

text \<open>
  \<^verbatim>\<open>importBatch(batchDir, batchNum, isFirstBatch)\<close> on the batch document read from the
  batch directory. \<open>rateLimits\<close> is \<open>None\<close> when rate limiting is not enabled. The client is
  created and the space and the environment are fetched before anything else; an error
  there, or of a content type, is thrown to the caller.
\<close>

definition importBatch ::
  "netEnv \<Rightarrow> importOptions \<Rightarrow> limiterOptions option \<Rightarrow> batch \<Rightarrow> bool \<Rightarrow> unit io" where
  "importBatch env opts rateLimits batchData isFirstBatch w =
     (let rateLimiter = map_option (\<lambda>options. newRateLimiter options (now w)) rateLimits
      in case call env GetSpace w of
           (w1, Inl err) \<Rightarrow> (w1, Inl err)
         | (w1, Inr space) \<Rightarrow>
            (case call env GetEnvironment w1 of
               (w2, Inl err) \<Rightarrow> (w2, Inl err)
             | (w2, Inr environment) \<Rightarrow>
                (case (if isFirstBatch \<and> length (b_contentTypes batchData) > 0
                       then (let x1 = importLocales env (b_locales batchData) (w2, rateLimiter);
                                 x2 = importTags env (b_tags batchData) x1
                             in case importContentTypes env opts (b_contentTypes batchData) x2 of
                                  (x3, Inl err) \<Rightarrow> (x3, Inl err)
                                | (x3, Inr v) \<Rightarrow>
                                    (importEditorInterfaces env (b_editorInterfaces batchData) x3, Inr ()))
                       else ((w2, rateLimiter), Inr ())) of
                   (x, Inl err) \<Rightarrow> (fst x, Inl err)
                 | (x, Inr v) \<Rightarrow>
                     (let x4 = fold (importAsset env opts) (b_assets batchData) x;
                          x5 = fold (importEntry env opts) (b_entries batchData) x4
                      in (fst x5, Inr ())))))"

subsection \<open>Reading what a batch import did\<close>

text \<open>The remote calls made outside of any admission, in order.\<close>

fun outsideAdmission :: "bool \<Rightarrow> ioEvent list \<Rightarrow> apiCall list" where
  "outsideAdmission inside [] = []"
| "outsideAdmission inside (Admitted # t) = outsideAdmission True t"
| "outsideAdmission inside (Finished # t) = outsideAdmission False t"
| "outsideAdmission inside (Remote c # t) = (if inside then [] else [c]) @ outsideAdmission inside t"
| "outsideAdmission inside (Slept ms # t) = outsideAdmission inside t"

text \<open>The remote calls made under each admission, one list per admission.\<close>

fun untilFinished :: "ioEvent list \<Rightarrow> apiCall list" where
  "untilFinished [] = []"
| "untilFinished (Finished # t) = []"
| "untilFinished (Remote c # t) = c # untilFinished t"
| "untilFinished (ev # t) = untilFinished t"

fun admissionCalls :: "ioEvent list \<Rightarrow> apiCall list list" where
  "admissionCalls [] = []"
| "admissionCalls (Admitted # t) = untilFinished t # admissionCalls t"
| "admissionCalls (ev # t) = admissionCalls t"

text \<open>A first batch with one locale, one content type, one editor interface, one asset and one entry.\<close>

definition firstBatch :: batch where
  "firstBatch = \<lparr> b_contentTypes = [pageType],
     b_tags = [\<lparr> tag_id = ''news'', tag_name = ''News'' \<rparr>],
     b_locales = [\<lparr> locale_code = ''en-US'' \<rparr>],
     b_editorInterfaces = [\<lparr> ei_contentTypeId = ''page'', ei_controls = Arr [] \<rparr>],
     b_webhooks = [],
     b_entries = [exampleEntry ''e1'' [(''image'', [(''en-US'', assetLink ''a1'')])]],
     b_assets = [exampleAsset ''a1''] \<rparr>"

section \<open>The draft cleanup (\<^verbatim>\<open>cleanup-drafts.js\<close>)\<close>

text \<open>
  \<^verbatim>\<open>!sys.publishedVersion || sys.version > sys.publishedVersion + 1\<close>; a missing published
  version and the published version 0 are both falsy.
\<close>

definition isDraft :: "int \<Rightarrow> int option \<Rightarrow> bool" where
  "isDraft version publishedVersion =
     (case publishedVersion of None \<Rightarrow> True | Some p \<Rightarrow> p = 0 \<or> version > p + 1)"

text \<open>
  \<^verbatim>\<open>contentTypeRequirements\<close>: a \<^verbatim>\<open>Map\<close> from the content-type id to its name and the ids of
  its required fields, filled by \<^verbatim>\<open>forEach\<close>.
\<close>

definition contentTypeRequirements :: "contentType list \<Rightarrow> (string \<rightharpoonup> string \<times> string list)" where
  "contentTypeRequirements cts =
     fold (\<lambda>ct m. m(ct_id ct \<mapsto> (ct_name ct, map field_id (filter field_required (ct_fields ct)))))
       cts Map.empty"

datatype entryClass = ValidPublished | ValidDraft | InvalidDraft "string list" | OrphanDraft

text \<open>
  A required field is missing when \<^verbatim>\<open>entry.fields[fieldId]\<close> is absent or an object without
  keys.
\<close>

definition classifyEntry :: "(string \<rightharpoonup> string \<times> string list) \<Rightarrow> entry \<Rightarrow> entryClass" where
  "classifyEntry reqs e =
     (if isDraft (entry_version e) (entry_publishedVersion e)
      then (case reqs (entry_contentType e) of
              None \<Rightarrow> OrphanDraft
            | Some contentTypeInfo \<Rightarrow>
                (let missingFields =
                       filter (\<lambda>fieldId. case map_of (entry_fields e) fieldId of
                                           None \<Rightarrow> True
                                         | Some field \<Rightarrow> length (map fst field) = 0)
                         (snd contentTypeInfo)
                 in if length missingFields > 0 then InvalidDraft missingFields else ValidDraft))
      else ValidPublished)"

definition invalidDrafts :: "export \<Rightarrow> entry list" where
  "invalidDrafts ex =
     filter (\<lambda>e. case classifyEntry (contentTypeRequirements (contentTypes ex)) e of
                    InvalidDraft missing \<Rightarrow> True | _ \<Rightarrow> False) (entries ex)"

definition orphanDrafts :: "export \<Rightarrow> entry list" where
  "orphanDrafts ex =
     filter (\<lambda>e. classifyEntry (contentTypeRequirements (contentTypes ex)) e = OrphanDraft) (entries ex)"

text \<open>\<^verbatim>\<open>Object.keys(v).length\<close> for a truthy value.\<close>

fun objectKeysLength :: "jsval \<Rightarrow> nat" where
  "objectKeysLength (Obj kvs) = length kvs"
| "objectKeysLength (Arr xs) = length xs"
| "objectKeysLength (Str s) = length s"
| "objectKeysLength v = 0"

definition invalidAssetDrafts :: "export \<Rightarrow> asset list" where
  "invalidAssetDrafts ex =
     filter (\<lambda>a. isDraft (asset_version a) (asset_publishedVersion a)
                 \<and> \<not> (truthy (asset_file a) \<and> objectKeysLength (asset_file a) > 0)) (assets ex)"

text \<open>The two sets of ids to remove.\<close>

definition entriesToRemove :: "export \<Rightarrow> string list" where
  "entriesToRemove ex = map entry_id (invalidDrafts ex) @ map entry_id (orphanDrafts ex)"

definition assetsToRemove :: "export \<Rightarrow> string list" where
  "assetsToRemove ex = map asset_id (invalidAssetDrafts ex)"

text \<open>
  The test made on a locale value and on each element of an array: the value is a link
  (\<^verbatim>\<open>v && typeof v === 'object' && v.sys && v.sys.type === 'Link'\<close>) and its target, by link
  type, is in the set of removed entries or removed assets.
\<close>

definition isLink :: "jsval \<Rightarrow> bool" where
  "isLink v = (truthy v \<and> typeof_object v \<and> truthy (getprop v ''sys'')
               \<and> getprop (getprop v ''sys'') ''type'' = Str ''Link'')"

definition removedLink :: "string list \<Rightarrow> string list \<Rightarrow> jsval \<Rightarrow> bool" where
  "removedLink removedEntries removedAssets v =
     (isLink v
      \<and> (let linkedId = getprop (getprop v ''sys'') ''id''
         in (getprop (getprop v ''sys'') ''linkType'' = Str ''Entry''
               \<and> linkedId \<in> set (map Str removedEntries))
          \<or> (getprop (getprop v ''sys'') ''linkType'' = Str ''Asset''
               \<and> linkedId \<in> set (map Str removedAssets))))"

text \<open>
  What happens to \<^verbatim>\<open>field[locale]\<close>: a link to a removed item is deleted (\<open>None\<close>), an
  array is replaced by its elements that are not links to removed items, anything else is
  left as it is.
\<close>

definition cleanLocaleValue ::
  "string list \<Rightarrow> string list \<Rightarrow> string \<times> jsval \<Rightarrow> (string \<times> jsval) option" where
  "cleanLocaleValue removedEntries removedAssets lv =
     (case snd lv of
        Arr items \<Rightarrow>
          Some (fst lv, Arr (filter (\<lambda>item. \<not> removedLink removedEntries removedAssets item) items))
      | value \<Rightarrow>
          if removedLink removedEntries removedAssets value then None else Some lv)"

definition cleanEntry :: "string list \<Rightarrow> string list \<Rightarrow> entry \<Rightarrow> entry" where
  "cleanEntry removedEntries removedAssets e =
     e \<lparr> entry_fields :=
           map (\<lambda>kf. (fst kf, List.map_filter (cleanLocaleValue removedEntries removedAssets) (snd kf)))
             (entry_fields e) \<rparr>"

text \<open>\<^verbatim>\<open>cleanedData\<close>, the document written to \<^verbatim>\<open>exported-space-cleaned.json\<close>.\<close>

definition cleanupDrafts :: "export \<Rightarrow> export" where
  "cleanupDrafts ex =
     ex \<lparr> entries := map (cleanEntry (entriesToRemove ex) (assetsToRemove ex))
                         (filter (\<lambda>e. entry_id e \<notin> set (entriesToRemove ex)) (entries ex)),
          assets := filter (\<lambda>a. asset_id a \<notin> set (assetsToRemove ex)) (assets ex) \<rparr>"

subsection \<open>Notions used to state the cleanup's properties\<close>

text \<open>A value and all the values nested in it, at any depth.\<close>

fun subvalues :: "jsval \<Rightarrow> jsval list" where
  "subvalues (Arr xs) = Arr xs # concat (map subvalues xs)"
| "subvalues (Obj kvs) = Obj kvs # concat (map (\<lambda>kv. subvalues (snd kv)) kvs)"
| "subvalues v = [v]"

definition isAssetLink :: "jsval \<Rightarrow> bool" where
  "isAssetLink v = (truthy (getprop v ''sys'')
                    \<and> getprop (getprop v ''sys'') ''type'' = Str ''Link''
                    \<and> getprop (getprop v ''sys'') ''linkType'' = Str ''Asset'')"

text \<open>
  An export with a published entry \<open>home\<close> and a draft \<open>old\<close> without its required title.
  \<open>home\<close> links \<open>old\<close> directly, from a list, from a list inside the list, and from inside a
  rich-text document.
\<close>

definition richText :: jsval where
  "richText = Obj [(''nodeType'', Str ''document''),
     (''content'', Arr [Obj [(''nodeType'', Str ''embedded-entry-block''),
                             (''data'', Obj [(''target'', entryLink ''old'')])]])]"

definition draftExport :: export where
  "draftExport = \<lparr>
     contentTypes = [pageType],
     entries =
       [\<lparr> entry_id = ''home'', entry_version = 2, entry_publishedVersion = Some 1,
          entry_contentType = ''page'',
          entry_fields = [(''title'', [(''en-US'', Str ''Home'')]),
                          (''related'', [(''en-US'', entryLink ''old'')]),
                          (''more'', [(''en-US'', Arr [entryLink ''old'', entryLink ''home'',
                                                      Arr [entryLink ''old'']])]),
                          (''body'', [(''en-US'', richText)])] \<rparr>,
        \<lparr> entry_id = ''old'', entry_version = 1, entry_publishedVersion = None,
          entry_contentType = ''page'', entry_fields = [] \<rparr>],
     assets = [], tags = [], locales = [\<lparr> locale_code = ''en-US'' \<rparr>],
     editorInterfaces = [], webhooks = [] \<rparr>"

text \<open>An entry whose only asset link sits inside a rich-text document.\<close>

definition deepAssetEntry :: entry where
  "deepAssetEntry = exampleEntry ''deep''
     [(''body'', [(''en-US'',
        Obj [(''nodeType'', Str ''document''),
             (''content'', Arr [Obj [(''nodeType'', Str ''embedded-asset-block''),
                                     (''data'', Obj [(''target'', assetLink ''a9'')])]])])])]"

section \<open>Properties of the splitter\<close>

lemma assetBatchesLoop_chunks:
  "0 < n \<Longrightarrow> \<exists>bs. assetBatchesLoop as n i acc = Some (acc @ bs) \<and> concat bs = drop i as
       \<and> (\<forall>b \<in> set bs. b \<noteq> [] \<and> length b \<le> n)"
proof (induction "length as - i" arbitrary: i acc rule: less_induct)
  case less
  show ?case
  proof (cases "i < length as")
    case False
    then show ?thesis by (subst assetBatchesLoop.simps) simp
  next
    case True
    with less.prems have "length as - (i + n) < length as - i" by arith
    from less.hyps[OF this less.prems, of "acc @ [slice as i (i + n)]"]
    obtain bs where bs: "assetBatchesLoop as n (i + n) (acc @ [slice as i (i + n)])
          = Some ((acc @ [slice as i (i + n)]) @ bs)"
      "concat bs = drop (i + n) as" "\<forall>b \<in> set bs. b \<noteq> [] \<and> length b \<le> n"
      by blast
    have step: "assetBatchesLoop as n i acc = Some (acc @ (slice as i (i + n) # bs))"
      using True bs(1) by (subst assetBatchesLoop.simps) simp
    have c: "concat (slice as i (i + n) # bs) = drop i as"
      using bs(2) by (simp add: slice_def add.commute[of i n] flip: drop_drop)
    have ne: "slice as i (i + n) \<noteq> [] \<and> length (slice as i (i + n)) \<le> n"
      using True less.prems by (simp add: slice_def)
    show ?thesis using step c ne bs(3) by (intro exI[of _ "slice as i (i + n) # bs"]) simp
  qed
qed

lemma batchEntryFilter_iff:
  "batchEntryFilter e2a P (map asset_id ab) e \<longleftrightarrow> entry_id e \<notin> set P \<and> hitsChunk e2a ab e"
  by (auto simp: batchEntryFilter_def hitsChunk_def list_ex_iff Let_def)

lemma hitsChunk_id: "entry_id e = entry_id e' \<Longrightarrow> hitsChunk e2a ab e = hitsChunk e2a ab e'"
  by (simp add: hitsChunk_def)

lemma processBatches_entries:
  "processBatches ex e2a k chunks P = (bs, P') \<Longrightarrow>
     length bs = length chunks
     \<and> (\<forall>i<length chunks. b_assets (bs ! i) = chunks ! i
           \<and> b_entries (bs ! i) = filter (\<lambda>e. entry_id e \<notin> set P \<and> hitsChunk e2a (chunks ! i) e
                 \<and> (\<forall>j<i. \<not> hitsChunk e2a (chunks ! j) e)) (entries ex))
     \<and> set P' = set P \<union> {entry_id e | e. e \<in> set (entries ex) \<and> (\<exists>i<length chunks. hitsChunk e2a (chunks ! i) e)}"
proof (induction chunks arbitrary: k P bs P')
  case Nil
  then show ?case by auto
next
  case (Cons ab rest)
  define be where "be = filter (batchEntryFilter e2a P (map asset_id ab)) (entries ex)"
  define P1 where "P1 = P @ map entry_id be"
  obtain bs1 P2 where rec: "processBatches ex e2a (k + 1) rest P1 = (bs1, P2)"
    by (cases "processBatches ex e2a (k + 1) rest P1")
  from Cons.prems rec have bs: "bs = \<lparr> b_contentTypes = (if k = 0 then contentTypes ex else []),
                        b_tags = (if k = 0 then tags ex else []),
                        b_locales = (if k = 0 then locales ex else []),
                        b_editorInterfaces = (if k = 0 then editorInterfaces ex else []),
                        b_webhooks = (if k = 0 then webhooks ex else []),
                        b_entries = be,
                        b_assets = ab \<rparr> # bs1" and P': "P' = P2"
    by (simp_all add: Let_def be_def P1_def)
  note IH = Cons.IH[OF rec]
  have be_eq: "be = filter (\<lambda>e. entry_id e \<notin> set P \<and> hitsChunk e2a ab e) (entries ex)"
    unfolding be_def by (rule filter_cong[OF refl]) (simp add: batchEntryFilter_iff)
  have P1set: "entry_id e \<notin> set P1 \<longleftrightarrow> entry_id e \<notin> set P \<and> \<not> hitsChunk e2a ab e"
    if e: "e \<in> set (entries ex)" for e
  proof -
    have "entry_id e \<in> entry_id ` set be \<longleftrightarrow> entry_id e \<notin> set P \<and> hitsChunk e2a ab e"
    proof
      assume "entry_id e \<in> entry_id ` set be"
      then obtain e' where e': "e' \<in> set be" "entry_id e = entry_id e'" by blast
      then have "entry_id e' \<notin> set P" "hitsChunk e2a ab e'" by (simp_all add: be_eq)
      with e'(2) show "entry_id e \<notin> set P \<and> hitsChunk e2a ab e"
        by (simp add: hitsChunk_def)
    next
      assume "entry_id e \<notin> set P \<and> hitsChunk e2a ab e"
      with e have "e \<in> set be" by (simp add: be_eq)
      then show "entry_id e \<in> entry_id ` set be" by (rule imageI)
    qed
    then show ?thesis by (simp add: P1_def) blast
  qed
  have len: "length bs = length (ab # rest)" using IH bs by simp
  have ent: "b_assets (bs ! i) = (ab # rest) ! i
           \<and> b_entries (bs ! i) = filter (\<lambda>e. entry_id e \<notin> set P \<and> hitsChunk e2a ((ab # rest) ! i) e
                 \<and> (\<forall>j<i. \<not> hitsChunk e2a ((ab # rest) ! j) e)) (entries ex)" if "i < length (ab # rest)" for i
  proof (cases i)
    case 0
    then show ?thesis using bs be_eq by simp
  next
    case (Suc m)
    with that have m: "m < length rest" by simp
    from IH m have a: "b_assets (bs1 ! m) = rest ! m" and
      e: "b_entries (bs1 ! m) = filter (\<lambda>e. entry_id e \<notin> set P1 \<and> hitsChunk e2a (rest ! m) e
                 \<and> (\<forall>j<m. \<not> hitsChunk e2a (rest ! j) e)) (entries ex)" by auto
    have "filter (\<lambda>e. entry_id e \<notin> set P1 \<and> hitsChunk e2a (rest ! m) e
                 \<and> (\<forall>j<m. \<not> hitsChunk e2a (rest ! j) e)) (entries ex)
        = filter (\<lambda>e. entry_id e \<notin> set P \<and> hitsChunk e2a ((ab # rest) ! Suc m) e
                 \<and> (\<forall>j<Suc m. \<not> hitsChunk e2a ((ab # rest) ! j) e)) (entries ex)"
      by (rule filter_cong[OF refl]) (auto simp: P1set All_less_Suc2)
    then show ?thesis using a e bs Suc by simp
  qed
  have "set P2 = set P1 \<union> {entry_id e | e. e \<in> set (entries ex) \<and> (\<exists>i<length rest. hitsChunk e2a (rest ! i) e)}"
    using IH by simp
  also have "set P1 = set P \<union> {entry_id e | e. e \<in> set (entries ex) \<and> hitsChunk e2a ab e}"
    unfolding P1_def be_eq by auto
  finally have "set P' = set P \<union> {entry_id e | e. e \<in> set (entries ex) \<and> (\<exists>i<length (ab # rest). hitsChunk e2a ((ab # rest) ! i) e)}"
    unfolding P' by (auto simp: Ex_less_Suc2)
  with len ent show ?case by blast
qed


lemma fold_upd_other:
  "k \<notin> entry_id ` set es \<Longrightarrow> fold (\<lambda>e m. m(entry_id e \<mapsto> g e)) es m k = m k"
  by (induction es arbitrary: m) auto

lemma fold_upd_distinct:
  "distinct (map entry_id es) \<Longrightarrow> e \<in> set es \<Longrightarrow>
     fold (\<lambda>e m. m(entry_id e \<mapsto> g e)) es m (entry_id e) = Some (g e)"
proof (induction es arbitrary: m)
  case Nil
  then show ?case by simp
next
  case (Cons x xs)
  show ?case
  proof (cases "e = x")
    case True
    with Cons.prems have "entry_id x \<notin> entry_id ` set xs" by auto
    from fold_upd_other[OF this, of g "m(entry_id x \<mapsto> g x)"]
    show ?thesis unfolding True by (simp only: fold.simps comp_def fun_upd_same)
  next
    case False
    with Cons show ?thesis by simp
  qed
qed

lemma entryToAssets_distinct:
  "distinct (map entry_id es) \<Longrightarrow> e \<in> set es \<Longrightarrow>
     entryToAssets es (entry_id e) = Some (getAssetReferencesFromEntry e)"
  unfolding entryToAssets_def by (rule fold_upd_distinct)

lemma hitsChunk_references:
  "distinct (map entry_id es) \<Longrightarrow> e \<in> set es \<Longrightarrow>
     hitsChunk (entryToAssets es) ab e = references e ab"
  by (auto simp: hitsChunk_def references_def entryToAssets_distinct)

lemma takeWhile_first:
  "i < length xs \<Longrightarrow>
     (p (xs ! i) \<and> (\<forall>j<i. \<not> p (xs ! j))) \<longleftrightarrow> length (takeWhile (\<lambda>c. \<not> p c) xs) = i"
proof (induction xs arbitrary: i)
  case Nil
  then show ?case by simp
next
  case (Cons x xs)
  show ?case
  proof (cases i)
    case 0
    then show ?thesis by simp
  next
    case (Suc m)
    with Cons.prems have "m < length xs" by simp
    from Cons.IH[OF this] show ?thesis using Suc by (auto simp: All_less_Suc2)
  qed
qed

lemma takeWhile_none:
  "(\<forall>j<length xs. \<not> p (xs ! j)) \<longleftrightarrow> length (takeWhile (\<lambda>c. \<not> p c) xs) = length xs"
  by (induction xs) (auto simp: All_less_Suc2)

lemma owner_id: "entry_id e = entry_id e' \<Longrightarrow> owner e2a chunks e = owner e2a chunks e'"
  by (simp add: owner_def hitsChunk_def)

lemma owner_le: "owner e2a chunks e \<le> length chunks"
  by (simp add: owner_def length_takeWhile_le)


lemma processBatches_model:
  "processBatches ex e2a k chunks P = (bs, P') \<Longrightarrow>
     \<forall>i<length chunks.
        b_contentTypes (bs ! i) = (if k + i = 0 then contentTypes ex else [])
      \<and> b_tags (bs ! i) = (if k + i = 0 then tags ex else [])
      \<and> b_locales (bs ! i) = (if k + i = 0 then locales ex else [])
      \<and> b_editorInterfaces (bs ! i) = (if k + i = 0 then editorInterfaces ex else [])
      \<and> b_webhooks (bs ! i) = (if k + i = 0 then webhooks ex else [])"
proof (induction chunks arbitrary: k P bs P')
  case Nil
  then show ?case by simp
next
  case (Cons ab rest)
  obtain bs1 P2 where rec:
    "processBatches ex e2a (k + 1) rest (P @ map entry_id
        (filter (batchEntryFilter e2a P (map asset_id ab)) (entries ex))) = (bs1, P2)"
    by (cases "processBatches ex e2a (k + 1) rest (P @ map entry_id
        (filter (batchEntryFilter e2a P (map asset_id ab)) (entries ex)))")
  define b where "b = hd bs"
  from Cons.prems rec have bs: "bs = b # bs1"
    and b: "b_contentTypes b = (if k = 0 then contentTypes ex else [])"
      "b_tags b = (if k = 0 then tags ex else [])"
      "b_locales b = (if k = 0 then locales ex else [])"
      "b_editorInterfaces b = (if k = 0 then editorInterfaces ex else [])"
      "b_webhooks b = (if k = 0 then webhooks ex else [])"
    unfolding b_def by (auto simp: Let_def)
  note IH = Cons.IH[OF rec]
  show ?case
  proof (intro allI impI)
    fix i assume "i < length (ab # rest)"
    then show "b_contentTypes (bs ! i) = (if k + i = 0 then contentTypes ex else [])
      \<and> b_tags (bs ! i) = (if k + i = 0 then tags ex else [])
      \<and> b_locales (bs ! i) = (if k + i = 0 then locales ex else [])
      \<and> b_editorInterfaces (bs ! i) = (if k + i = 0 then editorInterfaces ex else [])
      \<and> b_webhooks (bs ! i) = (if k + i = 0 then webhooks ex else [])"
      using IH b bs by (cases i) simp_all
  qed
qed

lemma splitExport_char:
  assumes "0 < batchSize"
  shows "\<exists>chunks bs. splitExport batchSize ex = Some bs
     \<and> concat chunks = assets ex \<and> (\<forall>c \<in> set chunks. c \<noteq> [] \<and> length c \<le> batchSize)
     \<and> length bs = length chunks
          + (if \<exists>e \<in> set (entries ex). owner (entryToAssets (entries ex)) chunks e = length chunks
             then 1 else 0)
     \<and> (\<forall>k<length bs.
            b_entries (bs ! k)
              = filter (\<lambda>e. owner (entryToAssets (entries ex)) chunks e = k) (entries ex)
          \<and> b_assets (bs ! k) = (if k < length chunks then chunks ! k else [])
          \<and> b_contentTypes (bs ! k) = (if k = 0 \<and> chunks \<noteq> [] then contentTypes ex else [])
          \<and> b_tags (bs ! k) = (if k = 0 \<and> chunks \<noteq> [] then tags ex else [])
          \<and> b_locales (bs ! k) = (if k = 0 \<and> chunks \<noteq> [] then locales ex else [])
          \<and> b_editorInterfaces (bs ! k) = (if k = 0 \<and> chunks \<noteq> [] then editorInterfaces ex else [])
          \<and> b_webhooks (bs ! k) = (if k = 0 \<and> chunks \<noteq> [] then webhooks ex else []))"
proof -
  define E where "E = entryToAssets (entries ex)"
  from assetBatchesLoop_chunks[OF assms, of "assets ex" 0 "[]"]
  obtain chunks where ch: "assetBatchesLoop (assets ex) batchSize 0 [] = Some chunks"
    "concat chunks = assets ex" "\<forall>c \<in> set chunks. c \<noteq> [] \<and> length c \<le> batchSize"
    by auto
  obtain bs0 P where pb: "processBatches ex E 0 chunks [] = (bs0, P)"
    by (cases "processBatches ex E 0 chunks []")
  define orph where "orph = filter (\<lambda>e. entry_id e \<notin> set P) (entries ex)"
  define bs where "bs = bs0 @ (if length orph > 0 then [orphanBatch orph] else [])"
  have se: "splitExport batchSize ex = Some bs"
    by (simp add: splitExport_def ch(1) pb bs_def orph_def flip: E_def)
  from processBatches_entries[OF pb]
  have len0: "length bs0 = length chunks"
    and ent0: "\<And>i. i < length chunks \<Longrightarrow> b_assets (bs0 ! i) = chunks ! i
           \<and> b_entries (bs0 ! i) = filter (\<lambda>e. hitsChunk E (chunks ! i) e
                 \<and> (\<forall>j<i. \<not> hitsChunk E (chunks ! j) e)) (entries ex)"
    and P: "set P = {entry_id e | e. e \<in> set (entries ex) \<and> (\<exists>i<length chunks. hitsChunk E (chunks ! i) e)}"
    by simp_all
  have own: "hitsChunk E (chunks ! i) e \<and> (\<forall>j<i. \<not> hitsChunk E (chunks ! j) e) \<longleftrightarrow> owner E chunks e = i"
    if "i < length chunks" for i e
    unfolding owner_def using takeWhile_first[OF that, of "\<lambda>c. hitsChunk E c e"] .
  have none: "(\<forall>j<length chunks. \<not> hitsChunk E (chunks ! j) e) \<longleftrightarrow> owner E chunks e = length chunks" for e
    unfolding owner_def using takeWhile_none[of chunks "\<lambda>c. hitsChunk E c e"] .
  have inP: "entry_id e \<notin> set P \<longleftrightarrow> owner E chunks e = length chunks" if "e \<in> set (entries ex)" for e
  proof
    assume "entry_id e \<notin> set P"
    with that have "\<forall>j<length chunks. \<not> hitsChunk E (chunks ! j) e" unfolding P by blast
    then show "owner E chunks e = length chunks" by (simp add: none)
  next
    assume a: "owner E chunks e = length chunks"
    show "entry_id e \<notin> set P"
    proof
      assume "entry_id e \<in> set P"
      then obtain e' i where e': "entry_id e = entry_id e'" "i < length chunks" "hitsChunk E (chunks ! i) e'"
        unfolding P by blast
      from owner_id[OF e'(1), of E chunks] a have "owner E chunks e' = length chunks" by simp
      with e'(2,3) show False by (simp flip: none)
    qed
  qed
  have orph_eq: "orph = filter (\<lambda>e. owner E chunks e = length chunks) (entries ex)"
    unfolding orph_def by (rule filter_cong[OF refl]) (simp add: inP)
  have orph_ne: "length orph > 0 \<longleftrightarrow> (\<exists>e \<in> set (entries ex). owner E chunks e = length chunks)"
    unfolding orph_eq by (simp add: filter_empty_conv)
  have len: "length bs = length chunks
          + (if \<exists>e \<in> set (entries ex). owner E chunks e = length chunks then 1 else 0)"
    unfolding bs_def using orph_ne by (simp add: len0)
  have ent0': "b_entries (bs0 ! i) = filter (\<lambda>e. owner E chunks e = i) (entries ex)"
    if "i < length chunks" for i
    using ent0[OF that] own[OF that] by simp
  note mod0 = processBatches_model[OF pb, rule_format]
  have all: "b_entries (bs ! k) = filter (\<lambda>e. owner E chunks e = k) (entries ex)
          \<and> b_assets (bs ! k) = (if k < length chunks then chunks ! k else [])
          \<and> b_contentTypes (bs ! k) = (if k = 0 \<and> chunks \<noteq> [] then contentTypes ex else [])
          \<and> b_tags (bs ! k) = (if k = 0 \<and> chunks \<noteq> [] then tags ex else [])
          \<and> b_locales (bs ! k) = (if k = 0 \<and> chunks \<noteq> [] then locales ex else [])
          \<and> b_editorInterfaces (bs ! k) = (if k = 0 \<and> chunks \<noteq> [] then editorInterfaces ex else [])
          \<and> b_webhooks (bs ! k) = (if k = 0 \<and> chunks \<noteq> [] then webhooks ex else [])"
    if k: "k < length bs" for k
  proof (cases "k < length chunks")
    case True
    then have nth: "bs ! k = bs0 ! k" by (simp add: bs_def nth_append len0)
    from True have ne: "chunks \<noteq> []" by auto
    show ?thesis unfolding nth using ent0'[OF True] ent0[OF True] mod0[OF True] True ne by simp
  next
    case False
    from False k len have kk: "k = length chunks"
      by (auto split: if_splits)
    from False k len have "\<exists>e \<in> set (entries ex). owner E chunks e = length chunks"
      by (auto split: if_splits)
    then have ex1: "length orph > 0" by (simp only: orph_ne)
    from kk ex1 have nth: "bs ! k = orphanBatch orph" by (simp add: bs_def nth_append len0)
    show ?thesis unfolding nth using kk orph_eq by (auto simp: orphanBatch_def)
  qed
  show ?thesis
    using se ch(2,3) len all unfolding E_def by blast
qed


lemma references_Nil: "\<not> references e []"
  by (simp add: references_def)

text \<open>
  Claim C1 (partition completeness). For a positive batch size the splitter ends, and the
  batch documents it writes partition the entries by id: the union of the batches' entry-id
  sets is the set of entry ids of the export, and the entry-id sets of two different batches
  are disjoint. When the entry ids of the export are distinct, an entry is in the first batch
  whose asset chunk it references, and an entry that references no batched asset is in the
  last batch, which then carries no assets (the overflow batch).
\<close>

theorem splitExport_partition_complete:
  assumes "0 < batchSize"
  shows "\<exists>bs. splitExport batchSize ex = Some bs
     \<and> (\<Union>b \<in> set bs. entryIds b) = entry_id ` set (entries ex)
     \<and> (\<forall>i<length bs. \<forall>j<length bs. i \<noteq> j \<longrightarrow> entryIds (bs ! i) \<inter> entryIds (bs ! j) = {})
     \<and> (distinct (map entry_id (entries ex)) \<longrightarrow>
          (\<forall>e \<in> set (entries ex).
             (\<forall>k<length bs. references e (b_assets (bs ! k))
                   \<and> (\<forall>j<k. \<not> references e (b_assets (bs ! j)))
                 \<longrightarrow> e \<in> set (b_entries (bs ! k)))
           \<and> ((\<forall>k<length bs. \<not> references e (b_assets (bs ! k)))
                 \<longrightarrow> bs \<noteq> [] \<and> b_assets (last bs) = [] \<and> e \<in> set (b_entries (last bs)))))"
proof -
  define E where "E = entryToAssets (entries ex)"
  from splitExport_char[OF assms, of ex]
  obtain chunks bs where se: "splitExport batchSize ex = Some bs"
    and len: "length bs = length chunks
          + (if \<exists>e \<in> set (entries ex). owner E chunks e = length chunks then 1 else 0)"
    and ent: "\<And>k. k < length bs \<Longrightarrow>
         b_entries (bs ! k) = filter (\<lambda>e. owner E chunks e = k) (entries ex)"
    and ass: "\<And>k. k < length bs \<Longrightarrow>
         b_assets (bs ! k) = (if k < length chunks then chunks ! k else [])"
    unfolding E_def by blast
  have own_lt: "owner E chunks e < length bs" if "e \<in> set (entries ex)" for e
    using owner_le[of E chunks e] that len by (cases "owner E chunks e = length chunks") auto
  have mem: "e \<in> set (b_entries (bs ! owner E chunks e))" if "e \<in> set (entries ex)" for e
    using ent[OF own_lt[OF that]] that by simp
  have un: "(\<Union>b \<in> set bs. entryIds b) = entry_id ` set (entries ex)"
  proof
    show "(\<Union>b \<in> set bs. entryIds b) \<subseteq> entry_id ` set (entries ex)"
    proof
      fix x assume "x \<in> (\<Union>b \<in> set bs. entryIds b)"
      then obtain b where "b \<in> set bs" "x \<in> entryIds b" by blast
      then obtain k where "k < length bs" "x \<in> entryIds (bs ! k)" by (auto simp: in_set_conv_nth)
      then show "x \<in> entry_id ` set (entries ex)" using ent[of k] by (auto simp: entryIds_def)
    qed
  next
    show "entry_id ` set (entries ex) \<subseteq> (\<Union>b \<in> set bs. entryIds b)"
    proof
      fix x assume "x \<in> entry_id ` set (entries ex)"
      then obtain e where e: "e \<in> set (entries ex)" "x = entry_id e" by blast
      have "bs ! owner E chunks e \<in> set bs" using own_lt[OF e(1)] by simp
      moreover have "x \<in> entryIds (bs ! owner E chunks e)"
        using mem[OF e(1)] e(2) by (simp add: entryIds_def)
      ultimately show "x \<in> (\<Union>b \<in> set bs. entryIds b)" by blast
    qed
  qed
  have dj: "entryIds (bs ! i) \<inter> entryIds (bs ! j) = {}"
    if "i < length bs" "j < length bs" "i \<noteq> j" for i j
  proof (rule ccontr)
    assume "entryIds (bs ! i) \<inter> entryIds (bs ! j) \<noteq> {}"
    then obtain e e' where "e \<in> set (b_entries (bs ! i))" "e' \<in> set (b_entries (bs ! j))"
      "entry_id e = entry_id e'" by (auto simp: entryIds_def)
    with ent[OF that(1)] ent[OF that(2)] have "owner E chunks e = i" "owner E chunks e' = j"
      "entry_id e = entry_id e'" by simp_all
    with owner_id[of e e' E chunks] that(3) show False by simp
  qed
  have par: "(\<forall>k<length bs. references e (b_assets (bs ! k))
                   \<and> (\<forall>j<k. \<not> references e (b_assets (bs ! j)))
                 \<longrightarrow> e \<in> set (b_entries (bs ! k)))
           \<and> ((\<forall>k<length bs. \<not> references e (b_assets (bs ! k)))
                 \<longrightarrow> bs \<noteq> [] \<and> b_assets (last bs) = [] \<and> e \<in> set (b_entries (last bs)))"
    if d: "distinct (map entry_id (entries ex))" and e: "e \<in> set (entries ex)" for e
  proof -
    have hr: "hitsChunk E c e = references e c" for c
      unfolding E_def by (rule hitsChunk_references[OF d e])
    have first: "e \<in> set (b_entries (bs ! k))"
      if k: "k < length bs" and r: "references e (b_assets (bs ! k))"
        and nr: "\<forall>j<k. \<not> references e (b_assets (bs ! j))" for k
    proof -
      from r ass[OF k] have kc: "k < length chunks"
        by (cases "k < length chunks") (simp_all add: references_Nil)
      have "hitsChunk E (chunks ! k) e" using r ass[OF k] kc by (simp add: hr)
      moreover have "\<forall>j<k. \<not> hitsChunk E (chunks ! j) e"
      proof (intro allI impI)
        fix j assume j: "j < k"
        with k have "j < length bs" by simp
        from ass[OF this] j kc have "b_assets (bs ! j) = chunks ! j" by simp
        with nr j show "\<not> hitsChunk E (chunks ! j) e" by (auto simp: hr)
      qed
      ultimately have "owner E chunks e = k"
        unfolding owner_def using takeWhile_first[OF kc, of "\<lambda>c. hitsChunk E c e"] by blast
      with mem[OF e] show ?thesis by simp
    qed
    have orphan: "bs \<noteq> [] \<and> b_assets (last bs) = [] \<and> e \<in> set (b_entries (last bs))"
      if nr: "\<forall>k<length bs. \<not> references e (b_assets (bs ! k))"
    proof -
      have "\<forall>j<length chunks. \<not> hitsChunk E (chunks ! j) e"
      proof (intro allI impI)
        fix j assume j: "j < length chunks"
        with len have jb: "j < length bs" by simp
        from ass[OF jb] j have "b_assets (bs ! j) = chunks ! j" by simp
        with nr jb show "\<not> hitsChunk E (chunks ! j) e" by (auto simp: hr)
      qed
      then have o: "owner E chunks e = length chunks"
        unfolding owner_def using takeWhile_none[of chunks "\<lambda>c. hitsChunk E c e"] by blast
      with e len have l: "length bs = length chunks + 1" by auto
      then have ne: "bs \<noteq> []" by auto
      have la: "last bs = bs ! length chunks" using l ne by (simp add: last_conv_nth)
      have lt: "length chunks < length bs" using l by simp
      show ?thesis using ne la ass[OF lt] mem[OF e] o by simp
    qed
    from first orphan show ?thesis by blast
  qed
  from se un dj par show ?thesis by blast
qed

theorem splitExport_partition_complete_witness:
  "(0::nat) < 2
   \<and> distinct (map entry_id (entries exampleExport))
   \<and> map_option (map (\<lambda>b. (map entry_id (b_entries b), map asset_id (b_assets b))))
        (splitExport 2 exampleExport)
      = Some [([''e2''], [''a1'', ''a2'']), ([''e1''], [''a3'']), ([''e3''], [])]"
proof -
  have pos: "(0::nat) < 2" by simp
  have run: "map_option (map (\<lambda>b. (map entry_id (b_entries b), map asset_id (b_assets b))))
        (splitExport 2 exampleExport)
      = Some [([''e2''], [''a1'', ''a2'']), ([''e1''], [''a3'']), ([''e3''], [])]"
    by code_simp
  have d: "distinct (map entry_id (entries exampleExport))" by code_simp
  from splitExport_partition_complete[OF pos, of exampleExport] pos run d
  show ?thesis by simp
qed

text \<open>
  Claim C2 (content-model singularity), as amended. For a positive batch size, every batch
  after the first (the overflow batch included) has empty content types, tags, locales, editor
  interfaces and webhooks. When the export has at least one asset, the first batch carries
  the export's five collections unchanged; so when the export also has a content type, the
  first batch is the one batch with a non-empty content-types collection.
\<close>

theorem splitExport_content_model:
  assumes "0 < batchSize"
  shows "\<exists>bs. splitExport batchSize ex = Some bs
     \<and> (\<forall>k<length bs. 0 < k \<longrightarrow>
            b_contentTypes (bs ! k) = [] \<and> b_tags (bs ! k) = [] \<and> b_locales (bs ! k) = []
          \<and> b_editorInterfaces (bs ! k) = [] \<and> b_webhooks (bs ! k) = [])
     \<and> (assets ex \<noteq> [] \<longrightarrow>
            bs \<noteq> [] \<and> b_contentTypes (bs ! 0) = contentTypes ex \<and> b_tags (bs ! 0) = tags ex
          \<and> b_locales (bs ! 0) = locales ex \<and> b_editorInterfaces (bs ! 0) = editorInterfaces ex
          \<and> b_webhooks (bs ! 0) = webhooks ex)
     \<and> (assets ex \<noteq> [] \<and> contentTypes ex \<noteq> [] \<longrightarrow>
            (\<forall>k<length bs. b_contentTypes (bs ! k) \<noteq> [] \<longleftrightarrow> k = 0))"
proof -
  from splitExport_char[OF assms, of ex]
  obtain chunks bs where se: "splitExport batchSize ex = Some bs"
    and cc: "concat chunks = assets ex"
    and len: "length bs = length chunks
          + (if \<exists>e \<in> set (entries ex). owner (entryToAssets (entries ex)) chunks e = length chunks
             then 1 else 0)"
    and model: "\<And>k. k < length bs \<Longrightarrow>
            b_contentTypes (bs ! k) = (if k = 0 \<and> chunks \<noteq> [] then contentTypes ex else [])
          \<and> b_tags (bs ! k) = (if k = 0 \<and> chunks \<noteq> [] then tags ex else [])
          \<and> b_locales (bs ! k) = (if k = 0 \<and> chunks \<noteq> [] then locales ex else [])
          \<and> b_editorInterfaces (bs ! k) = (if k = 0 \<and> chunks \<noteq> [] then editorInterfaces ex else [])
          \<and> b_webhooks (bs ! k) = (if k = 0 \<and> chunks \<noteq> [] then webhooks ex else [])"
    by blast
  have rest: "b_contentTypes (bs ! k) = [] \<and> b_tags (bs ! k) = [] \<and> b_locales (bs ! k) = []
          \<and> b_editorInterfaces (bs ! k) = [] \<and> b_webhooks (bs ! k) = []"
    if "k < length bs" "0 < k" for k
    using model[OF that(1)] that(2) by simp
  have first: "bs \<noteq> [] \<and> b_contentTypes (bs ! 0) = contentTypes ex \<and> b_tags (bs ! 0) = tags ex
          \<and> b_locales (bs ! 0) = locales ex \<and> b_editorInterfaces (bs ! 0) = editorInterfaces ex
          \<and> b_webhooks (bs ! 0) = webhooks ex"
    if a: "assets ex \<noteq> []"
  proof -
    from a cc have ne: "chunks \<noteq> []" by auto
    with len have l: "0 < length bs" by simp
    from model[OF l] ne l show ?thesis by auto
  qed
  have one: "b_contentTypes (bs ! k) \<noteq> [] \<longleftrightarrow> k = 0"
    if "assets ex \<noteq> []" "contentTypes ex \<noteq> []" "k < length bs" for k
    using first[OF that(1)] rest[OF that(3)] that(2) by (cases "k = 0") auto
  from se rest first one show ?thesis by blast
qed

theorem splitExport_content_model_witness:
  "(0::nat) < 2 \<and> assets exampleExport \<noteq> [] \<and> contentTypes exampleExport \<noteq> []
   \<and> map_option (map b_contentTypes) (splitExport 2 exampleExport) = Some [[pageType], [], []]"
proof -
  have pos: "(0::nat) < 2" by simp
  have run: "map_option (map b_contentTypes) (splitExport 2 exampleExport) = Some [[pageType], [], []]"
    by code_simp
  have a: "assets exampleExport \<noteq> []" "contentTypes exampleExport \<noteq> []" by code_simp+
  from splitExport_content_model[OF pos, of exampleExport] pos run a
  show ?thesis by simp
qed

text \<open>
  The claim as the specification states it fails on an export without assets, where the only
  batch is the overflow batch and the content types are in no batch, and on an export
  without content types, where no batch has a non-empty content-types collection.
\<close>

theorem splitExport_content_model_counterexample:
  "contentTypes noAssetsExport \<noteq> []
   \<and> map_option (map b_contentTypes) (splitExport 2 noAssetsExport) = Some [[]]
   \<and> map_option (map b_contentTypes) (splitExport 2 noTypesExport) = Some [[], []]"
  by code_simp

section \<open>Properties of the resume script\<close>

lemma of_char_digitChar: "d < 10 \<Longrightarrow> (of_char (digitChar d) :: nat) = 48 + d"
  by (simp add: digitChar_def)

lemma isDigit_digitChar: "d < 10 \<Longrightarrow> isDigit (digitChar d)"
  by (simp add: isDigit_def of_char_digitChar)

lemma digitsValue_snoc: "digitsValue (ds @ [c]) = digitsValue ds * 10 + (int (of_char c) - 48)"
  by (simp add: digitsValue_def)

lemma natToString_digits:
  "natToString n \<noteq> [] \<and> (\<forall>c \<in> set (natToString n). isDigit c) \<and> digitsValue (natToString n) = int n"
proof (induction n rule: natToString.induct)
  case (1 n)
  show ?case
  proof (cases "n < 10")
    case True
    then show ?thesis
      by (subst (1 2 3) natToString.simps) (simp add: isDigit_digitChar digitsValue_def of_char_digitChar)
  next
    case False
    have m: "n mod 10 < 10" by simp
    from False 1 have IH: "natToString (n div 10) \<noteq> []"
      "\<forall>c \<in> set (natToString (n div 10)). isDigit c"
      "digitsValue (natToString (n div 10)) = int (n div 10)" by simp_all
    have eq: "natToString n = natToString (n div 10) @ [digitChar (n mod 10)]"
      using False by (subst natToString.simps) simp
    have "digitsValue (natToString n) = int (n div 10) * 10 + int (n mod 10)"
      unfolding eq digitsValue_snoc IH(3) by (simp add: of_char_digitChar[OF m])
    also have "\<dots> = int n" by presburger
    finally show ?thesis using IH(2) isDigit_digitChar[OF m] unfolding eq by simp
  qed
qed

lemma isDigit_zero: "isDigit (CHR ''0'')"
  by (simp add: isDigit_def)

lemma digitsValue_zeros: "digitsValue (replicate k (CHR ''0'') @ ds) = digitsValue ds"
proof -
  have "foldl (\<lambda>acc c. acc * 10 + (int (of_char c) - 48)) 0 (replicate k (CHR ''0'')) = 0"
    by (induction k) simp_all
  then show ?thesis by (simp add: digitsValue_def)
qed

lemma parseInt_digits:
  assumes "ds \<noteq> []" "\<forall>c \<in> set ds. isDigit c"
  shows "parseInt ds = Some (digitsValue ds)"
proof -
  from assms obtain c r where ds: "ds = c # r" by (cases ds) auto
  with assms(2) have c: "isDigit c" by simp
  then have nws: "\<not> isWhiteSpace c" and ns: "c \<noteq> CHR ''-''" "c \<noteq> CHR ''+''"
    by (auto simp: isDigit_def isWhiteSpace_def)
  have dw: "dropWhile isWhiteSpace ds = ds" using nws ds by simp
  have tw: "takeWhile isDigit ds = ds" using assms(2) by (simp add: takeWhile_eq_all_conv)
  show ?thesis unfolding parseInt_def dw Let_def using ns assms(1) tw by (simp add: ds)
qed

lemma parseInt_batchNumStr: "parseInt (batchNumStr i) = Some (int i)"
proof -
  have ne: "batchNumStr i \<noteq> []" using natToString_digits[of i] by (simp add: batchNumStr_def padStart2_def)
  have dg: "\<forall>c \<in> set (batchNumStr i). isDigit c"
    using natToString_digits[of i] isDigit_zero by (auto simp: batchNumStr_def padStart2_def)
  have "digitsValue (batchNumStr i) = int i"
    unfolding batchNumStr_def padStart2_def digitsValue_zeros using natToString_digits[of i] by simp
  with parseInt_digits[OF ne dg] show ?thesis by simp
qed

lemma hd_sort_Min: "xs \<noteq> [] \<Longrightarrow> hd (sort xs) = Min (set (xs :: int list))"
proof -
  assume ne: "xs \<noteq> []"
  then have "sort xs \<noteq> []" by (metis length_sort length_0_conv)
  then obtain y ys where s: "sort xs = y # ys" by (cases "sort xs") auto
  have srt: "sorted (y # ys)" unfolding s[symmetric] by (rule sorted_sort)
  have st: "set (y # ys) = set xs" unfolding s[symmetric] by (rule set_sort)
  have "Min (set xs) = y"
  proof (rule Min_eqI)
    show "finite (set xs)" by simp
    show "y \<in> set xs" using st by auto
    fix z assume "z \<in> set xs"
    with st have "z \<in> set (y # ys)" by simp
    with srt show "y \<le> z" by auto
  qed
  with s show ?thesis by simp
qed

lemma fold_max0: "fold max xs (0::int) = Max (insert 0 (set xs))"
  using Max.set_eq_fold[of 0 xs] by simp


text \<open>
  Claim C5 (resume decision order). With a state file and a manifest present, the resume
  script decides by the first rule that applies: (1) a set in-flight marker restarts at the
  number it parses to, for a marker written by the driver the batch number itself; (2)
  otherwise, with failed batches recorded, it restarts at the lowest failed batch number;
  (3) otherwise it restarts one past the highest completed batch number (0 when none is
  completed), (4) unless that number is at least the manifest's batch count, when it reports
  completion and starts nothing. The state of the specification's example restarts at
  batch 3.
\<close>

theorem resumeImport_decision_order:
  "(\<forall>b n. currentBatch st = Some b \<and> b \<noteq> [] \<and> parseInt b = Some n
       \<longrightarrow> resumeImport (Some st) (Some m) = StartFrom Current (Some n))
 \<and> (\<forall>i. currentBatch st = Some (batchNumStr i)
       \<longrightarrow> resumeImport (Some st) (Some m) = StartFrom Current (Some (int i)))
 \<and> ((currentBatch st = None \<or> currentBatch st = Some []) \<and> failedBatches st \<noteq> []
       \<and> (\<forall>fb \<in> set (failedBatches st). parseInt (fb_batch fb) \<noteq> None)
       \<longrightarrow> resumeImport (Some st) (Some m)
           = StartFrom Failed (Some (Min ((\<lambda>fb. the (parseInt (fb_batch fb))) ` set (failedBatches st)))))
 \<and> ((currentBatch st = None \<or> currentBatch st = Some []) \<and> failedBatches st = []
       \<and> (\<forall>b \<in> set (completedBatches st). parseInt b \<noteq> None)
       \<longrightarrow> resumeImport (Some st) (Some m)
           = (if Max (insert 0 ((\<lambda>b. the (parseInt b)) ` set (completedBatches st))) \<ge> int (totalBatches m)
              then AllCompleted
              else StartFrom Next
                     (Some (Max (insert 0 ((\<lambda>b. the (parseInt b)) ` set (completedBatches st))) + 1))))
 \<and> resumeImport (Some exampleState) (Some m) = StartFrom Current (Some 3)"
proof -
  have r1: "resumeImport (Some st) (Some m) = StartFrom Current (Some n)"
    if "currentBatch st = Some b" "b \<noteq> []" "parseInt b = Some n" for b n
    using that by (simp add: resumeImport_def)
  have r1': "resumeImport (Some st) (Some m) = StartFrom Current (Some (int i))"
    if c: "currentBatch st = Some (batchNumStr i)" for i
  proof -
    have "batchNumStr i \<noteq> []" using parseInt_batchNumStr[of i] by (auto simp: parseInt_def)
    from r1[OF c this parseInt_batchNumStr] show ?thesis .
  qed
  have r2: "resumeImport (Some st) (Some m)
           = StartFrom Failed (Some (Min ((\<lambda>fb. the (parseInt (fb_batch fb))) ` set (failedBatches st))))"
    if c: "currentBatch st = None \<or> currentBatch st = Some []" and f: "failedBatches st \<noteq> []"
      and p: "\<forall>fb \<in> set (failedBatches st). parseInt (fb_batch fb) \<noteq> None"
  proof -
    have nn: "None \<notin> set (map (\<lambda>fb. parseInt (fb_batch fb)) (failedBatches st))"
      using p by auto
    have ne: "map the (map (\<lambda>fb. parseInt (fb_batch fb)) (failedBatches st)) \<noteq> []"
      using f by simp
    have "hd (sort (map the (map (\<lambda>fb. parseInt (fb_batch fb)) (failedBatches st))))
        = Min ((\<lambda>fb. the (parseInt (fb_batch fb))) ` set (failedBatches st))"
      unfolding hd_sort_Min[OF ne] by (simp add: image_image)
    with c f nn show ?thesis by (auto simp: resumeImport_def Let_def)
  qed
  have r3: "resumeImport (Some st) (Some m)
           = (if Max (insert 0 ((\<lambda>b. the (parseInt b)) ` set (completedBatches st))) \<ge> int (totalBatches m)
              then AllCompleted
              else StartFrom Next
                     (Some (Max (insert 0 ((\<lambda>b. the (parseInt b)) ` set (completedBatches st))) + 1)))"
    if c: "currentBatch st = None \<or> currentBatch st = Some []" and f: "failedBatches st = []"
      and p: "\<forall>b \<in> set (completedBatches st). parseInt b \<noteq> None"
  proof -
    have nn: "None \<notin> set (map parseInt (completedBatches st))" using p by auto
    have mx: "mathMax0 (map parseInt (completedBatches st))
        = Some (Max (insert 0 ((\<lambda>b. the (parseInt b)) ` set (completedBatches st))))"
      unfolding mathMax0_def using nn by (simp add: fold_max0 image_image)
    from c f show ?thesis by (auto simp: resumeImport_def Let_def mx)
  qed
  have r5: "resumeImport (Some exampleState) (Some m) = StartFrom Current (Some 3)"
  proof -
    have "parseInt ''03'' = Some 3" by code_simp
    then show ?thesis by (simp add: resumeImport_def exampleState_def)
  qed
  from r1 r1' r2 r3 r5 show ?thesis by blast
qed

theorem resumeImport_decision_order_witness:
  "currentBatch exampleState = Some ''03'' \<and> parseInt ''03'' = Some 3
   \<and> resumeImport (Some exampleState) (Some exampleManifest) = StartFrom Current (Some 3)
   \<and> currentBatch failedState = None \<and> failedBatches failedState \<noteq> []
   \<and> resumeImport (Some failedState) (Some exampleManifest) = StartFrom Failed (Some 2)
   \<and> currentBatch completedState = None \<and> failedBatches completedState = []
   \<and> resumeImport (Some completedState) (Some exampleManifest) = StartFrom Next (Some 3)"
proof -
  have a: "currentBatch exampleState = Some ''03''" "''03'' \<noteq> []"
    by (simp_all add: exampleState_def)
  have b: "parseInt ''03'' = Some 3" "parseInt ''02'' = Some 2" "parseInt ''01'' = Some 1"
    by code_simp+
  have f: "currentBatch failedState = None" "failedBatches failedState \<noteq> []"
    "\<forall>fb \<in> set (failedBatches failedState). parseInt (fb_batch fb) \<noteq> None"
    "Min ((\<lambda>fb. the (parseInt (fb_batch fb))) ` set (failedBatches failedState)) = 2"
    by (simp_all add: failedState_def b)
  have c: "currentBatch completedState = None" "failedBatches completedState = []"
    "\<forall>b \<in> set (completedBatches completedState). parseInt b \<noteq> None"
    "Max (insert 0 ((\<lambda>b. the (parseInt b)) ` set (completedBatches completedState))) = 2"
    "totalBatches exampleManifest = 5"
    by (simp_all add: completedState_def exampleManifest_def b)
  from resumeImport_decision_order[of exampleState exampleManifest] a b(1)
  have 1: "resumeImport (Some exampleState) (Some exampleManifest) = StartFrom Current (Some 3)"
    by blast
  from resumeImport_decision_order[of failedState exampleManifest] f
  have 2: "resumeImport (Some failedState) (Some exampleManifest) = StartFrom Failed (Some 2)"
    by simp
  from resumeImport_decision_order[of completedState exampleManifest] c
  have 3: "resumeImport (Some completedState) (Some exampleManifest) = StartFrom Next (Some 3)"
    by simp
  from 1 2 3 a b f c show ?thesis by simp
qed

section \<open>Properties of the import driver\<close>

lemma attemptsOf_simps [simp]:
  "attemptsOf b [] = 0"
  "attemptsOf b (t @ u) = attemptsOf b t + attemptsOf b u"
  "attemptsOf b (EvImport b' f k # t) = (if b' = b then 1 else 0) + attemptsOf b t"
  "attemptsOf b (EvSleep ms # t) = attemptsOf b t"
  "attemptsOf b (EvSave s # t) = attemptsOf b t"
  "attemptsOf b (EvSkip c # t) = attemptsOf b t"
  by (simp_all add: attemptsOf_def)
























section \<open>Properties of the state file\<close>

text \<open>
  Claim C7 (state persistence), as amended. Every save writes the whole state document with
  one \<^verbatim>\<open>fs.writeFileSync\<close>: when the call has run to its end the file holds exactly the state
  in memory, whatever it held before, and loading it gives that state back. The write is not
  atomic: a call stopped before its first stage leaves the old file, a call stopped after the
  first stage leaves a torn file, and only after the second stage the document is there.
\<close>

theorem saveState_whole_document:
  "stateFile (saveState r) = Written (state r)
   \<and> loadState e (stateFile (saveState r)) = Returned (state r)
   \<and> interruptedWrite (state r) (stateFile r) 0 = stateFile r
   \<and> interruptedWrite (state r) (stateFile r) 1 = Torn
   \<and> interruptedWrite (state r) (stateFile r) 2 = Written (state r)"
  by (simp add: saveState_def writeFileSync_def writeFileSyncStages_def loadState_def
        interruptedWrite_def)

text \<open>
  The claim as the specification states it fails: a save of the example state over a
  complete earlier document, stopped after the truncation, leaves a file that is neither the
  earlier document nor the new one, and loading it throws.
\<close>

theorem saveState_whole_document_counterexample:
  "interruptedWrite exampleState (Written freshState) 1 = Torn
   \<and> Torn \<noteq> Written freshState \<and> Torn \<noteq> Written exampleState
   \<and> loadState succeedingEnv (interruptedWrite exampleState (Written freshState) 1)
       = Threw ''SyntaxError'' \<lparr> startedAt = [], completedBatches = [], failedBatches = [],
                                   currentBatch = None \<rparr>"
  by (simp add: interruptedWrite_def writeFileSyncStages_def loadState_def)

section \<open>Properties of the rate limiter\<close>





lemma waitForToken_shape:
  "waitForToken env (w, b, st) =
     (if tokens (refillBucket (now w) b) < 1
      then (setTimeout env (waitTimeFor (refillBucket (now w) b)) w,
            (refillBucket (now (setTimeout env (waitTimeFor (refillBucket (now w) b)) w))
               (refillBucket (now w) b))
              \<lparr> tokens := tokens (refillBucket (now (setTimeout env (waitTimeFor (refillBucket (now w) b)) w))
                                      (refillBucket (now w) b)) - 1 \<rparr>,
            st \<lparr> throttledRequests := throttledRequests st + 1,
                 totalWaitTime := totalWaitTime st + waitTimeFor (refillBucket (now w) b) \<rparr>)
      else (w, (refillBucket (now w) b) \<lparr> tokens := tokens (refillBucket (now w) b) - 1 \<rparr>, st))"
  by (simp add: waitForToken_def Let_def)










lemma waitForToken_time:
  "honestTimers env \<Longrightarrow> now w \<le> now (fst (waitForToken env (w, b, st)))"
  unfolding waitForToken_shape by (simp add: setTimeout_def honestTimers_def)

lemma waitForToken_capacity:
  "capacity (fst (snd (waitForToken env (w, b, st)))) = capacity b"
  unfolding waitForToken_shape by (simp add: refillBucket_def Let_def)

text \<open>
  Claim C4 (429 handling). Let the wrapped operation, once admitted, reject with an error of
  status 429, and let timers not fire early. Then \<open>throttle\<close> runs the operation once, makes
  no further remote call, suspends for 60000 milliseconds, sets the tokens of the second
  bucket to 0 and those of the hour bucket to the minimum of their count and half the
  capacity (so never raises them), and throws the same error. The operation of the next
  \<open>throttle\<close> therefore starts at least 60000 milliseconds after the rejection.
\<close>

theorem throttle_429_cooldown:
  assumes "honestTimers env"
    and "waitForToken env (w, secondBucket rl, stats rl) = (w1, sb, st1)"
    and "waitForToken env (w1, hourBucket rl, st1) = (w2, hb, st2)"
    and "fn (w2 \<lparr> events := events w2 @ [Admitted] \<rparr>) = (w3, Inl err)"
    and "is429 err"
  shows "\<exists>w' rl'. throttle env fn (w, rl) = ((w', rl'), Inl err)
      \<and> events w' = events w3 @ [Finished, Slept 60000]
      \<and> calls w' = calls w3
      \<and> now w3 + 60000 \<le> now w'
      \<and> tokens (secondBucket rl') = 0
      \<and> tokens (hourBucket rl') = min (tokens hb) (capacity (hourBucket rl) / 2)
      \<and> tokens (hourBucket rl') \<le> tokens hb
      \<and> capacity (hourBucket rl') = capacity (hourBucket rl)
      \<and> capacity (secondBucket rl') = capacity (secondBucket rl)
      \<and> now w3 + 60000
           \<le> now (fst (waitForToken env
                 (fst (waitForToken env (w', secondBucket rl', stats rl')),
                  hourBucket rl',
                  snd (snd (waitForToken env (w', secondBucket rl', stats rl'))))))"
proof -
  define w' where "w' = setTimeout env 60000 (w3 \<lparr> events := events w3 @ [Finished] \<rparr>)"
  define rl2 where "rl2 = rl \<lparr> secondBucket := sb, hourBucket := hb,
                           stats := st2 \<lparr> totalRequests := totalRequests st2 + 1 \<rparr> \<rparr>"
  define rl' where "rl' = rl2 \<lparr> secondBucket := (secondBucket rl2) \<lparr> tokens := 0 \<rparr>,
                                hourBucket := (hourBucket rl2)
                                   \<lparr> tokens := min (tokens (hourBucket rl2))
                                                  (capacity (hourBucket rl2) * (1 / 2)) \<rparr> \<rparr>"
  have run: "throttle env fn (w, rl) = ((w', rl'), Inl err)"
    using assms(2-5) by (simp add: throttle_def Let_def w'_def rl'_def rl2_def)
  have caps: "capacity hb = capacity (hourBucket rl)" "capacity sb = capacity (secondBucket rl)"
    using waitForToken_capacity[of env w1 "hourBucket rl" st1]
      waitForToken_capacity[of env w "secondBucket rl" "stats rl"] assms(2,3) by simp_all
  have ev: "events w' = events w3 @ [Finished, Slept 60000]" "calls w' = calls w3"
    by (simp_all add: w'_def setTimeout_def)
  have t: "now w3 + 60000 \<le> now w'"
    using assms(1) by (simp add: w'_def setTimeout_def honestTimers_def)
  have tok: "tokens (secondBucket rl') = 0"
    "tokens (hourBucket rl') = min (tokens hb) (capacity (hourBucket rl) / 2)"
    "capacity (hourBucket rl') = capacity (hourBucket rl)"
    "capacity (secondBucket rl') = capacity (secondBucket rl)"
    by (simp_all add: rl'_def rl2_def caps)
  have le: "tokens (hourBucket rl') \<le> tokens hb" unfolding tok(2) by simp
  have nxt: "now w' \<le> now (fst (waitForToken env
                 (fst (waitForToken env (w', secondBucket rl', stats rl')),
                  hourBucket rl',
                  snd (snd (waitForToken env (w', secondBucket rl', stats rl'))))))"
    using waitForToken_time[OF assms(1), of w' "secondBucket rl'" "stats rl'"]
      waitForToken_time[OF assms(1), of "fst (waitForToken env (w', secondBucket rl', stats rl'))"
        "hourBucket rl'" "snd (snd (waitForToken env (w', secondBucket rl', stats rl')))"]
    by simp
  from run ev t tok le nxt show ?thesis by (intro exI[of _ w'] exI[of _ rl']) simp
qed

theorem throttle_429_cooldown_witness:
  "honestTimers rejectingEnv
   \<and> is429 tooManyRequests
   \<and> snd (throttle rejectingEnv (oneCall rejectingEnv GetLocales) (startWorld, newRateLimiter defaultOptions 0))
       = Inl tooManyRequests
   \<and> now (fst (fst (throttle rejectingEnv (oneCall rejectingEnv GetLocales)
         (startWorld, newRateLimiter defaultOptions 0)))) = 60005
   \<and> tokens (hourBucket (snd (fst (throttle rejectingEnv (oneCall rejectingEnv GetLocales)
         (startWorld, newRateLimiter defaultOptions 0))))) = 18000"
proof -
  define rl where "rl = newRateLimiter defaultOptions 0"
  have h: "honestTimers rejectingEnv" by (auto simp: honestTimers_def rejectingEnv_def max_def)
  have e: "is429 tooManyRequests" by (simp add: is429_def tooManyRequests_def)
  have a: "waitForToken rejectingEnv (startWorld, secondBucket rl, stats rl)
      = (startWorld, \<lparr> capacity = 10, tokens = 9, refillRate = 10, lastRefill = 0 \<rparr>, stats rl)"
    unfolding rl_def by code_simp
  have b: "waitForToken rejectingEnv (startWorld, hourBucket rl, stats rl)
      = (startWorld, \<lparr> capacity = 36000, tokens = 35999, refillRate = 10, lastRefill = 0 \<rparr>, stats rl)"
    unfolding rl_def by code_simp
  have c: "oneCall rejectingEnv GetLocales (startWorld \<lparr> events := events startWorld @ [Admitted] \<rparr>)
      = (\<lparr> now = 5, calls = 1, events = [Admitted, Remote GetLocales] \<rparr>, Inl tooManyRequests)"
    by code_simp
  have run: "snd (throttle rejectingEnv (oneCall rejectingEnv GetLocales) (startWorld, newRateLimiter defaultOptions 0))
       = Inl tooManyRequests"
    "now (fst (fst (throttle rejectingEnv (oneCall rejectingEnv GetLocales)
         (startWorld, newRateLimiter defaultOptions 0)))) = 60005"
    "tokens (hourBucket (snd (fst (throttle rejectingEnv (oneCall rejectingEnv GetLocales)
         (startWorld, newRateLimiter defaultOptions 0))))) = 18000"
    by code_simp+
  from throttle_429_cooldown[where fn = "oneCall rejectingEnv GetLocales", OF h a b c e] h e run
  show ?thesis by blast
qed

section \<open>Properties of the batch import\<close>

text \<open>
  Claim C9 (universal admission) against the code. With the rate limiter enabled, the import
  of a first batch with one locale, one tag, one content type, one editor interface, one
  asset and one entry, every remote call succeeding: the two calls that open the session,
  \<^verbatim>\<open>getSpace\<close> and \<^verbatim>\<open>getEnvironment\<close>, run outside of any admission, and four of the ten
  admissions cover two or three remote calls each (locale check and create, content type
  create and publish, the three calls of the editor interface, asset fetch and publish).
\<close>

theorem importBatch_admissions:
  "outsideAdmission False (events (fst
      (importBatch promptEnv exampleOptions (Some defaultOptions) firstBatch True startWorld)))
     = [GetSpace, GetEnvironment]
   \<and> admissionCalls (events (fst
      (importBatch promptEnv exampleOptions (Some defaultOptions) firstBatch True startWorld)))
     = [[GetLocales, CreateLocale ''en-US''],
        [CreateTag ''news''],
        [CreateContentTypeWithId ''page'', PublishContentType ''page''],
        [GetContentType ''page'', GetEditorInterface ''page'', UpdateEditorInterface ''page''],
        [CreateAssetWithId ''a1''],
        [ProcessForAllLocales ''a1''],
        [GetAsset ''a1''],
        [GetAsset ''a1'', PublishAsset ''a1''],
        [CreateEntryWithId ''page'' ''e1''],
        [PublishEntry ''e1'']]
   \<and> snd (importBatch promptEnv exampleOptions (Some defaultOptions) firstBatch True startWorld)
     = Inr ()"
  by code_simp

section \<open>Properties of the draft cleanup\<close>

lemma removedLink_Arr: "\<not> removedLink R A (Arr xs)"
  by (simp add: removedLink_def isLink_def)

lemma cleanLocaleValue_Some:
  assumes "cleanLocaleValue R A lv0 = Some lv"
  shows "\<not> removedLink R A (snd lv)
       \<and> (\<forall>items. snd lv = Arr items \<longrightarrow> (\<forall>item \<in> set items. \<not> removedLink R A item))"
proof (cases "snd lv0")
  case (Arr items)
  with assms have "lv = (fst lv0, Arr (filter (\<lambda>item. \<not> removedLink R A item) items))"
    by (simp add: cleanLocaleValue_def)
  then show ?thesis by (simp add: removedLink_Arr)
qed (use assms in \<open>auto simp: cleanLocaleValue_def split: if_splits\<close>)

lemma cleanEntry_shallow:
  assumes "kf \<in> set (entry_fields (cleanEntry R A e))" "lv \<in> set (snd kf)"
  shows "\<not> removedLink R A (snd lv)
       \<and> (\<forall>items. snd lv = Arr items \<longrightarrow> (\<forall>item \<in> set items. \<not> removedLink R A item))"
proof -
  from assms(1) obtain kf0 where "kf = (fst kf0, List.map_filter (cleanLocaleValue R A) (snd kf0))"
    by (auto simp: cleanEntry_def)
  with assms(2) obtain lv0 where "cleanLocaleValue R A lv0 = Some lv"
    by (auto simp: List.map_filter_def)
  then show ?thesis by (rule cleanLocaleValue_Some)
qed

lemma subvalues_self: "v \<in> set (subvalues v)"
  by (cases v) simp_all

lemma traverseFields_Obj_self:
  "isAssetLink (Obj kvs) \<Longrightarrow>
     getprop (getprop (Obj kvs) ''sys'') ''id'' \<in> set (traverseFields (Obj kvs))"
  by (simp add: isAssetLink_def del: getprop.simps)

lemma traverseFields_Obj_child:
  "kv \<in> set kvs \<Longrightarrow> x \<in> set (traverseFields (snd kv)) \<Longrightarrow> x \<in> set (traverseFields (Obj kvs))"
  by (auto simp del: getprop.simps)

lemma traverseFields_deep:
  "v \<in> set (subvalues doc) \<Longrightarrow> isAssetLink v \<Longrightarrow>
     getprop (getprop v ''sys'') ''id'' \<in> set (traverseFields doc)"
proof (induction doc rule: traverseFields.induct)
  case (1 xs)
  from "1.prems"(2) have "v \<noteq> Arr xs" by (auto simp: isAssetLink_def)
  with "1.prems"(1) obtain x where "x \<in> set xs" "v \<in> set (subvalues x)" by auto
  with "1.IH" "1.prems"(2) show ?case by auto
next
  case (2 kvs)
  show ?case
  proof (cases "v = Obj kvs")
    case True
    with "2.prems"(2) show ?thesis using traverseFields_Obj_self by simp
  next
    case False
    with "2.prems"(1) obtain kv where kv: "kv \<in> set kvs" "v \<in> set (subvalues (snd kv))" by auto
    from "2.IH"[OF kv "2.prems"(2)] kv(1) show ?thesis by (rule traverseFields_Obj_child[rotated])
  qed
qed (auto simp: isAssetLink_def)

lemma truthy_fieldsValue: "truthy (fieldsValue fs)"
  by (simp add: fieldsValue_def)

lemma getAssetReferences_deep:
  "v \<in> set (subvalues (fieldsValue (entry_fields e))) \<Longrightarrow> isAssetLink v \<Longrightarrow>
     getprop (getprop v ''sys'') ''id'' \<in> set (getAssetReferencesFromEntry e)"
  using traverseFields_deep[of v "fieldsValue (entry_fields e)"]
  by (simp add: getAssetReferencesFromEntry_def truthy_fieldsValue)


text \<open>
  Claim C10 (shallow link cleanup). In the cleaned export, for every remaining entry, no
  locale value of a field and no element of an array stored at a locale value is a link to
  a removed entry or asset. The cleanup looks no deeper: a locale value that is not an array
  and not itself such a link is kept as it is, and of an array the elements that are not
  such links are kept as they are, whatever is nested in them; in the cleaned example
  export the entry \<open>home\<close> still holds the link to the removed entry \<open>old\<close> inside its
  rich text. The splitter's traversal, unlike this, reaches every depth: the id of an
  asset link nested anywhere in the fields of an entry is among the entry's asset
  references.
\<close>

theorem cleanup_links_shallow:
  "(\<forall>e \<in> set (entries (cleanupDrafts ex)). \<forall>kf \<in> set (entry_fields e). \<forall>lv \<in> set (snd kf).
       \<not> removedLink (entriesToRemove ex) (assetsToRemove ex) (snd lv)
     \<and> (\<forall>items. snd lv = Arr items \<longrightarrow>
           (\<forall>item \<in> set items. \<not> removedLink (entriesToRemove ex) (assetsToRemove ex) item)))
 \<and> ((\<forall>items. snd lv \<noteq> Arr items) \<and> \<not> removedLink R A (snd lv)
       \<longrightarrow> cleanLocaleValue R A lv = Some lv)
 \<and> cleanLocaleValue R A (l, Arr items)
       = Some (l, Arr (filter (\<lambda>item. \<not> removedLink R A item) items))
 \<and> (removedLink (entriesToRemove draftExport) (assetsToRemove draftExport) (entryLink ''old'')
      \<and> entryLink ''old''
           \<in> set (subvalues (fieldsValue (entry_fields (hd (entries (cleanupDrafts draftExport)))))))
 \<and> (\<forall>v \<in> set (subvalues (fieldsValue (entry_fields e0))). isAssetLink v
       \<longrightarrow> getprop (getprop v ''sys'') ''id'' \<in> set (getAssetReferencesFromEntry e0))"
proof -
  have a: "\<forall>e \<in> set (entries (cleanupDrafts ex)). \<forall>kf \<in> set (entry_fields e). \<forall>lv \<in> set (snd kf).
       \<not> removedLink (entriesToRemove ex) (assetsToRemove ex) (snd lv)
     \<and> (\<forall>items. snd lv = Arr items \<longrightarrow>
           (\<forall>item \<in> set items. \<not> removedLink (entriesToRemove ex) (assetsToRemove ex) item))"
  proof (intro ballI)
    fix e kf lv
    assume e: "e \<in> set (entries (cleanupDrafts ex))" and kf: "kf \<in> set (entry_fields e)"
      and lv: "lv \<in> set (snd kf)"
    from e obtain e' where "e = cleanEntry (entriesToRemove ex) (assetsToRemove ex) e'"
      by (auto simp: cleanupDrafts_def)
    with kf lv show "\<not> removedLink (entriesToRemove ex) (assetsToRemove ex) (snd lv)
     \<and> (\<forall>items. snd lv = Arr items \<longrightarrow>
           (\<forall>item \<in> set items. \<not> removedLink (entriesToRemove ex) (assetsToRemove ex) item))"
      using cleanEntry_shallow[of kf "entriesToRemove ex" "assetsToRemove ex" e' lv] by simp
  qed
  have b: "(\<forall>items. snd lv \<noteq> Arr items) \<and> \<not> removedLink R A (snd lv)
       \<longrightarrow> cleanLocaleValue R A lv = Some lv"
    by (cases "snd lv") (auto simp: cleanLocaleValue_def)
  have c: "cleanLocaleValue R A (l, Arr items)
       = Some (l, Arr (filter (\<lambda>item. \<not> removedLink R A item) items))"
    by (simp add: cleanLocaleValue_def)
  have d: "removedLink (entriesToRemove draftExport) (assetsToRemove draftExport) (entryLink ''old'')
      \<and> entryLink ''old''
           \<in> set (subvalues (fieldsValue (entry_fields (hd (entries (cleanupDrafts draftExport))))))"
    by code_simp
  have e: "\<forall>v \<in> set (subvalues (fieldsValue (entry_fields e0))). isAssetLink v
       \<longrightarrow> getprop (getprop v ''sys'') ''id'' \<in> set (getAssetReferencesFromEntry e0)"
    using getAssetReferences_deep by blast
  from a b c d e show ?thesis by blast
qed

theorem cleanup_links_shallow_witness:
  "map entry_id (entries (cleanupDrafts draftExport)) = [''home'']
   \<and> map_of (entry_fields (hd (entries (cleanupDrafts draftExport)))) ''related'' = Some []
   \<and> map_of (entry_fields (hd (entries (cleanupDrafts draftExport)))) ''more''
       = Some [(''en-US'', Arr [entryLink ''home'', Arr [entryLink ''old'']])]
   \<and> assetLink ''a9'' \<in> set (subvalues (fieldsValue (entry_fields deepAssetEntry)))
   \<and> isAssetLink (assetLink ''a9'')
   \<and> getAssetReferencesFromEntry deepAssetEntry = [Str ''a9'']"
proof -
  have run: "map entry_id (entries (cleanupDrafts draftExport)) = [''home'']"
    "map_of (entry_fields (hd (entries (cleanupDrafts draftExport)))) ''related'' = Some []"
    "map_of (entry_fields (hd (entries (cleanupDrafts draftExport)))) ''more''
       = Some [(''en-US'', Arr [entryLink ''home'', Arr [entryLink ''old'']])]"
    "assetLink ''a9'' \<in> set (subvalues (fieldsValue (entry_fields deepAssetEntry)))"
    "isAssetLink (assetLink ''a9'')"
    "getAssetReferencesFromEntry deepAssetEntry = [Str ''a9'']"
    by code_simp+
  from cleanup_links_shallow[of draftExport "(''en-US'', Str ''Home'')" "[]" "[]" "''en-US''" "[]" deepAssetEntry]
    run
  show ?thesis by blast
qed

end
